theory Spec2Isabelle
  imports Complex_Main
begin

section \<open>Data model\<close>

text \<open>
  The bus-ticket backend keeps two collections, buses and bookings, behind Mongoose
  models. A JavaScript \<open>Number\<close> that counts seats is an \<open>int\<close>; an array length
  or a stored seat count is a \<open>nat\<close>; a \<open>Date\<close> is its number of milliseconds since
  the epoch, an \<open>int\<close> (sums and differences of whole numbers are exact in a double as
  long as they stay below \<open>2 ^ 53\<close>); a document identifier (\<open>_id\<close>) is a \<open>nat\<close>. A
  fare is a finite double, written as the rational it denotes; an amount computed from
  it (\<open>totalAmount\<close>, \<open>refundAmount\<close>) is a \<open>number\<close>: a finite double or an
  infinity (\<open>NaN\<close> cannot come out of the products the code forms, and Mongoose
  refuses to store it).

  Of a bus document the ledger, the fare, the operating days and the status are kept;
  of a passenger the seat label; the bus number, route, times, type and driver of a
  bus, the name, age and gender of a passenger, the contact details and the generated
  \<open>bookingId\<close> code of a booking, and the time stamps are left out. A document is
  taken to pass the validators of the fields that are left out: these validators do
  not depend on the time, and no operation of the subsystem writes these fields.

  \<open>findById\<close> returns the stored document with that identifier. \<open>save\<close> and
  \<open>create\<close> first run the schema's validators on the whole document, then the
  schema's \<open>pre('save')\<close> hook, then write: \<open>create\<close> inserts the document under a
  fresh identifier, \<open>save\<close> replaces the stored document and fails when there is none.
  A rejected \<open>save\<close> or \<open>create\<close> throws and writes nothing. The \<open>populate\<close> calls of
  the controllers only decorate the response and are left out. Requests run one after
  the other, every \<open>new Date()\<close> of one request reads the same instant \<open>now\<close>, and
  the server's local time zone is UTC.
\<close>

type_synonym objectId = nat
type_synonym timestamp = int

datatype number = Finite rat | PosInf | NegInf

datatype busStatus = Active | Inactive | Maintenance

datatype weekday = Monday | Tuesday | Wednesday | Thursday | Friday | Saturday | Sunday

record bus =
  bus_id :: objectId
  capacity :: int
  availableSeats :: int
  fare :: rat
  operatingDays :: "weekday list"
  bus_status :: busStatus

datatype bookingStatus = Pending | Confirmed | Cancelled | Completed

datatype paymentStatus = PaymentPending | Paid | Refunded | PaymentFailed

datatype paymentMethod = Cash | Card | Upi | Wallet | Netbanking

record passenger =
  seatNumber :: string

text \<open>\<open>bookingDate\<close> is \<open>None\<close> as long as nothing has set the field.\<close>

record booking =
  booking_id :: objectId
  userId :: objectId
  busId :: objectId
  passengerDetails :: "passenger list"
  bookingDate :: "timestamp option"
  travelDate :: timestamp
  totalAmount :: number
  seatCount :: nat
  status :: bookingStatus
  paymentStatus :: paymentStatus
  paymentMethod :: paymentMethod
  cancellationReason :: "string option"
  cancellationDate :: "timestamp option"
  refundAmount :: number

record store =
  buses :: "bus list"
  bookings :: "booking list"

datatype role = UserRole | AdminRole

record user =
  user_id :: objectId
  user_role :: role

text \<open>
  The failures of the subsystem. \<open>NotEnoughSeats\<close> and \<open>CannotBeCancelled\<close> are the
  two \<open>Error\<close>s the models throw, \<open>ValidationError\<close> and \<open>DocumentNotFound\<close> the two
  that \<open>save\<close> and \<open>create\<close> throw; the others are the error responses of the
  controllers, \<open>ServerError\<close> being the 500 of a \<open>catch\<close> block.
\<close>

datatype error =
    ValidationFailed
  | BusNotFound
  | BusNotAvailable
  | TravelDateInPast
  | BusNotOperating
  | InsufficientSeats
  | SeatsAlreadyBooked
  | BookingNotFound
  | AccessDenied
  | NotPending
  | AlreadyCancelled
  | CompletedBooking
  | CannotBeCancelled
  | NotEnoughSeats
  | ValidationError
  | DocumentNotFound
  | ServerError

section \<open>Double-precision arithmetic\<close>

text \<open>
  The products \<open>bus.fare * seatCount\<close>, \<open>this.totalAmount * 0.9\<close> and
  \<open>this.totalAmount * 0.5\<close> are IEEE 754 binary64 products: the exact product rounded
  to the nearest double, ties to the even significand. \<open>expo x\<close> is the binary
  exponent of a positive \<open>x\<close> (\<open>2 ^ expo x \<le> x < 2 ^ (expo x + 1)\<close>), \<open>ulp x\<close> the spacing
  of the doubles around it (53 significant bits, fixed at \<open>2 ^ - 1074\<close> in the subnormal
  range), and a result of magnitude \<open>2 ^ 1024\<close> or more overflows to an infinity.
\<close>

fun ilog2 :: "nat \<Rightarrow> nat" where
  "ilog2 n = (if n < 2 then 0 else Suc (ilog2 (n div 2)))"

declare ilog2.simps [simp del]

definition expo :: "rat \<Rightarrow> int" where
  "expo x = (if 1 \<le> x then int (ilog2 (nat \<lfloor>x\<rfloor>))
             else - int (ilog2 (nat (\<lceil>1 / x\<rceil> - 1))) - 1)"

definition roundEven :: "rat \<Rightarrow> int" where
  "roundEven y =
     (let f = \<lfloor>y\<rfloor>; d = y - of_int f
      in if d < 1 / 2 then f else if 1 / 2 < d then f + 1 else if even f then f else f + 1)"

definition ulp :: "rat \<Rightarrow> rat" where
  "ulp x = power_int 2 (max (expo x) (- 1022) - 52)"

definition roundPos :: "rat \<Rightarrow> rat" where
  "roundPos x = of_int (roundEven (x / ulp x)) * ulp x"

definition roundDouble :: "rat \<Rightarrow> number" where
  "roundDouble x =
     (if x = 0 then Finite 0
      else if 0 < x then (if roundPos x < 2 ^ 1024 then Finite (roundPos x) else PosInf)
      else (if roundPos (- x) < 2 ^ 1024 then Finite (- roundPos (- x)) else NegInf))"

text \<open>The double that the literal \<open>0.9\<close> denotes; \<open>0.5\<close> is a double itself.\<close>

definition double09 :: rat where
  "double09 = 8106479329266893 / 9007199254740992"

text \<open>The product of a number and a positive finite double.\<close>

definition timesDouble :: "number \<Rightarrow> rat \<Rightarrow> number" where
  "timesDouble v c =
     (case v of Finite x \<Rightarrow> roundDouble (x * c) | PosInf \<Rightarrow> PosInf | NegInf \<Rightarrow> NegInf)"

text \<open>
  \<open>Math.floor\<close>, the comparison \<open>v > c\<close> with a finite \<open>c\<close>, and the comparison
  \<open>v >= 0\<close> of a validator with minimum 0.
\<close>

definition floorN :: "number \<Rightarrow> number" where
  "floorN v =
     (case v of Finite x \<Rightarrow> Finite (of_int \<lfloor>x\<rfloor>) | PosInf \<Rightarrow> PosInf | NegInf \<Rightarrow> NegInf)"

definition exceeds :: "number \<Rightarrow> rat \<Rightarrow> bool" where
  "exceeds v c = (case v of Finite x \<Rightarrow> c < x | PosInf \<Rightarrow> True | NegInf \<Rightarrow> False)"

definition nonNegative :: "number \<Rightarrow> bool" where
  "nonNegative v = (case v of Finite x \<Rightarrow> 0 \<le> x | PosInf \<Rightarrow> True | NegInf \<Rightarrow> False)"

section \<open>The persistence layer\<close>

definition findBus :: "store \<Rightarrow> objectId \<Rightarrow> bus option" where
  "findBus s i = find (\<lambda>b. bus_id b = i) (buses s)"

definition findBooking :: "store \<Rightarrow> objectId \<Rightarrow> booking option" where
  "findBooking s i = find (\<lambda>b. booking_id b = i) (bookings s)"

definition replaceBus :: "bus \<Rightarrow> bus list \<Rightarrow> bus list" where
  "replaceBus d bs = map (\<lambda>x. if bus_id x = bus_id d then d else x) bs"

definition replaceBooking :: "booking \<Rightarrow> booking list \<Rightarrow> booking list" where
  "replaceBooking d bs = map (\<lambda>x. if booking_id x = booking_id d then d else x) bs"

primrec maxId :: "booking list \<Rightarrow> objectId" where
  "maxId [] = 0"
| "maxId (b # bs) = max (booking_id b) (maxId bs)"

definition newObjectId :: "store \<Rightarrow> objectId" where
  "newObjectId s = Suc (maxId (bookings s))"

section \<open>The bus model: the seat ledger\<close>

text \<open>The validators the bus schema declares on \<open>capacity\<close>, \<open>availableSeats\<close> and \<open>fare\<close>.\<close>

definition busSchemaValid :: "bus \<Rightarrow> bool" where
  "busSchemaValid b =
     (1 \<le> capacity b \<and> capacity b \<le> 100 \<and> 0 \<le> availableSeats b \<and> 0 \<le> fare b)"

text \<open>
  \<open>busSchema.pre('save')\<close>. In JavaScript \<open>!this.availableSeats\<close> holds of \<open>0\<close> and of
  a missing field alike; a document without the field does not pass the validators,
  which run before the hook, so of the two only \<open>0\<close> reaches it.
\<close>

definition busPreSave :: "bool \<Rightarrow> bus \<Rightarrow> bus" where
  "busPreSave isNew b =
     (let b1 = (if isNew \<and> availableSeats b = 0 then b\<lparr>availableSeats := capacity b\<rparr> else b)
      in if availableSeats b1 > capacity b1 then b1\<lparr>availableSeats := capacity b1\<rparr> else b1)"

text \<open>
  \<open>save\<close> on a bus that was loaded from the store, and \<open>Bus.create\<close>. Each answers with
  the saved document or the error thrown, and with the store it leaves behind.
\<close>

definition saveBus :: "bus \<Rightarrow> store \<Rightarrow> (error + bus) \<times> store" where
  "saveBus b s =
     (if \<not> busSchemaValid b then (Inl ValidationError, s)
      else
        let b' = busPreSave False b in
        if findBus s (bus_id b') = None then (Inl DocumentNotFound, s)
        else (Inr b', s\<lparr>buses := replaceBus b' (buses s)\<rparr>))"

definition Bus_create :: "bus \<Rightarrow> store \<Rightarrow> (error + bus) \<times> store" where
  "Bus_create b s =
     (if \<not> busSchemaValid b then (Inl ValidationError, s)
      else let b' = busPreSave True b in (Inr b', s\<lparr>buses := buses s @ [b']\<rparr>))"

definition bookSeats :: "bus \<Rightarrow> nat \<Rightarrow> store \<Rightarrow> (error + bus) \<times> store" where
  "bookSeats b n s =
     (if availableSeats b \<ge> int n
      then saveBus (b\<lparr>availableSeats := availableSeats b - int n\<rparr>) s
      else (Inl NotEnoughSeats, s))"

definition releaseSeats :: "bus \<Rightarrow> nat \<Rightarrow> store \<Rightarrow> (error + bus) \<times> store" where
  "releaseSeats b n s =
     saveBus (b\<lparr>availableSeats := min (availableSeats b + int n) (capacity b)\<rparr>) s"

text \<open>The ledger invariant of a bus, and of every bus of a store.\<close>

definition ledgerOk :: "bus \<Rightarrow> bool" where
  "ledgerOk b = (0 \<le> availableSeats b \<and> availableSeats b \<le> capacity b)"

definition storeOk :: "store \<Rightarrow> bool" where
  "storeOk s = list_all ledgerOk (buses s)"

section \<open>The booking model\<close>

definition msPerDay :: int where
  "msPerDay = 24 * 60 * 60 * 1000"

definition startOfDay :: "timestamp \<Rightarrow> timestamp" where
  "startOfDay t = t - t mod msPerDay"

definition endOfDay :: "timestamp \<Rightarrow> timestamp" where
  "endOfDay t = startOfDay t + (msPerDay - 1)"

text \<open>
  The validators of the booking schema on the fields that are kept: \<open>bookingDate\<close> is
  required, \<open>travelDate\<close> must not lie before today's midnight, \<open>totalAmount\<close> and
  \<open>refundAmount\<close> have minimum 0, \<open>seatCount\<close> has minimum 1, and every passenger's
  \<open>seatNumber\<close> is required.
\<close>

definition bookingSchemaValid :: "timestamp \<Rightarrow> booking \<Rightarrow> bool" where
  "bookingSchemaValid now bk =
     (bookingDate bk \<noteq> None
      \<and> startOfDay now \<le> travelDate bk
      \<and> nonNegative (totalAmount bk)
      \<and> 1 \<le> seatCount bk
      \<and> nonNegative (refundAmount bk)
      \<and> list_all (\<lambda>p. seatNumber p \<noteq> []) (passengerDetails bk))"

text \<open>
  The two getters. The quotient \<open>hoursUntilTravel\<close>, a double in the code, is kept
  exact: it is compared with 2 and with 24 only, and rounding it to a double changes
  neither comparison (lemma \<open>hoursUntilTravel_rounded\<close> below).
\<close>

definition hoursUntilTravel :: "timestamp \<Rightarrow> booking \<Rightarrow> rat" where
  "hoursUntilTravel now bk = of_int (travelDate bk - now) / (1000 * 60 * 60)"

definition canCancel :: "timestamp \<Rightarrow> booking \<Rightarrow> bool" where
  "canCancel now bk =
     (if status bk \<noteq> Confirmed then False else hoursUntilTravel now bk > 2)"

definition eligibleRefundAmount :: "timestamp \<Rightarrow> booking \<Rightarrow> number" where
  "eligibleRefundAmount now bk =
     (if \<not> canCancel now bk then Finite 0
      else if hoursUntilTravel now bk > 24 then floorN (timesDouble (totalAmount bk) double09)
      else if hoursUntilTravel now bk > 2 then floorN (timesDouble (totalAmount bk) (1 / 2))
      else Finite 0)"

text \<open>
  \<open>save\<close> on a booking that was loaded from the store (its \<open>pre('save')\<close> hook only
  acts on a new document), and \<open>Booking.create\<close>, whose hook stamps \<open>bookingDate\<close>
  after the validators have run.
\<close>

definition saveBooking :: "timestamp \<Rightarrow> booking \<Rightarrow> store \<Rightarrow> (error + booking) \<times> store" where
  "saveBooking now bk s =
     (if \<not> bookingSchemaValid now bk then (Inl ValidationError, s)
      else if findBooking s (booking_id bk) = None then (Inl DocumentNotFound, s)
      else (Inr bk, s\<lparr>bookings := replaceBooking bk (bookings s)\<rparr>))"

definition Booking_create :: "timestamp \<Rightarrow> booking \<Rightarrow> store \<Rightarrow> (error + booking) \<times> store" where
  "Booking_create now bookingData s =
     (if \<not> bookingSchemaValid now bookingData then (Inl ValidationError, s)
      else
        let bk = bookingData\<lparr>booking_id := newObjectId s, bookingDate := Some now\<rparr>
        in (Inr bk, s\<lparr>bookings := bookings s @ [bk]\<rparr>))"

text \<open>
  \<open>bookingSchema.methods.cancelBooking\<close>. The status is set to \<open>Cancelled\<close> first, and
  the getter \<open>eligibleRefundAmount\<close> is read from the document after that. The seats
  are released, and the bus saved, before the booking is.
\<close>

definition cancelBooking_model ::
  "timestamp \<Rightarrow> string \<Rightarrow> booking \<Rightarrow> store \<Rightarrow> (error + booking) \<times> store" where
  "cancelBooking_model now reason bk s =
     (if \<not> canCancel now bk then (Inl CannotBeCancelled, s)
      else
        let b1 = bk\<lparr>status := Cancelled, cancellationReason := Some reason,
                     cancellationDate := Some now\<rparr>;
            b2 = b1\<lparr>refundAmount := eligibleRefundAmount now b1\<rparr>;
            b3 = b2\<lparr>paymentStatus := (if exceeds (refundAmount b2) 0 then Refunded else Paid)\<rparr>
        in (case findBus s (busId b3) of
              None \<Rightarrow> saveBooking now b3 s
            | Some b \<Rightarrow>
                (case releaseSeats b (seatCount b3) s of
                   (Inl e, s1) \<Rightarrow> (Inl e, s1)
                 | (Inr b', s1) \<Rightarrow> saveBooking now b3 s1)))"

definition confirmBooking_model :: "timestamp \<Rightarrow> booking \<Rightarrow> store \<Rightarrow> (error + booking) \<times> store" where
  "confirmBooking_model now bk s =
     saveBooking now (bk\<lparr>status := Confirmed, paymentStatus := Paid\<rparr>) s"

definition checkSeatAvailability ::
  "store \<Rightarrow> objectId \<Rightarrow> timestamp \<Rightarrow> string list \<Rightarrow> bool" where
  "checkSeatAvailability s bid date requestedSeats =
     (let matched = filter (\<lambda>bk. busId bk = bid
                              \<and> startOfDay date \<le> travelDate bk \<and> travelDate bk \<le> endOfDay date
                              \<and> (status bk = Confirmed \<or> status bk = Pending)) (bookings s);
          bookedSeats = remdups (concat (map (\<lambda>bk. map seatNumber (passengerDetails bk)) matched))
      in \<not> list_ex (\<lambda>seat. seat \<in> set bookedSeats) requestedSeats)"

section \<open>The booking controller\<close>

text \<open>
  A request to create a booking: the outcome of the route's validation chain
  (\<open>validationResult(req).isEmpty()\<close>), the authenticated user and the body.
\<close>

record createRequest =
  validationOk :: bool
  req_user :: user
  req_busId :: objectId
  req_passengerDetails :: "passenger list"
  req_travelDate :: timestamp
  req_paymentMethod :: paymentMethod

text \<open>The weekday of a date; the first of January 1970 was a Thursday.\<close>

definition dayName :: "timestamp \<Rightarrow> weekday" where
  "dayName t =
     [Thursday, Friday, Saturday, Sunday, Monday, Tuesday, Wednesday] ! nat ((t div msPerDay) mod 7)"

text \<open>
  The data the controller hands to \<open>Booking.create\<close>. It names no \<open>bookingDate\<close>; the
  payment status and the refund amount are the schema's defaults.
\<close>

definition bookingData :: "createRequest \<Rightarrow> number \<Rightarrow> nat \<Rightarrow> booking" where
  "bookingData req amount n =
     \<lparr>booking_id = 0, userId = user_id (req_user req), busId = req_busId req,
      passengerDetails = req_passengerDetails req, bookingDate = None,
      travelDate = req_travelDate req, totalAmount = amount, seatCount = n,
      status = Pending, paymentStatus = PaymentPending,
      paymentMethod = req_paymentMethod req, cancellationReason = None,
      cancellationDate = None, refundAmount = Finite 0\<rparr>"

text \<open>
  The seat labels a request names: \<open>passengerDetails.map(p => p.seatNumber).filter(Boolean)\<close>.
\<close>

definition requestedSeats :: "createRequest \<Rightarrow> string list" where
  "requestedSeats req = filter (\<lambda>l. l \<noteq> []) (map seatNumber (req_passengerDetails req))"

text \<open>
  \<open>createBooking\<close> answers with the created booking or an error, and returns the
  store it leaves behind. The booking is created first and the seats are reserved after
  it; an exception of either step ends in the \<open>catch\<close> block, which answers 500 and
  undoes nothing.
\<close>

definition createBooking ::
  "timestamp \<Rightarrow> createRequest \<Rightarrow> store \<Rightarrow> (error + booking) \<times> store" where
  "createBooking now req s =
     (if \<not> validationOk req then (Inl ValidationFailed, s)
      else (case findBus s (req_busId req) of
        None \<Rightarrow> (Inl BusNotFound, s)
      | Some b \<Rightarrow>
          if bus_status b \<noteq> Active then (Inl BusNotAvailable, s)
          else if req_travelDate req < startOfDay now then (Inl TravelDateInPast, s)
          else if dayName (req_travelDate req) \<notin> set (operatingDays b)
            then (Inl BusNotOperating, s)
          else
            let n = length (req_passengerDetails req) in
            if availableSeats b < int n then (Inl InsufficientSeats, s)
            else
              if requestedSeats req \<noteq> []
                 \<and> \<not> checkSeatAvailability s (req_busId req) (req_travelDate req)
                       (requestedSeats req)
              then (Inl SeatsAlreadyBooked, s)
              else
                let amount = roundDouble (fare b * of_nat n) in
                (case Booking_create now (bookingData req amount n) s of
                   (Inl e, s1) \<Rightarrow> (Inl ServerError, s1)
                 | (Inr bk, s1) \<Rightarrow>
                     (case bookSeats b n s1 of
                        (Inl e, s2) \<Rightarrow> (Inl ServerError, s2)
                      | (Inr b', s2) \<Rightarrow> (Inr bk, s2)))))"

definition confirmBooking ::
  "timestamp \<Rightarrow> objectId \<Rightarrow> store \<Rightarrow> (error + booking) \<times> store" where
  "confirmBooking now i s =
     (case findBooking s i of
        None \<Rightarrow> (Inl BookingNotFound, s)
      | Some bk \<Rightarrow>
          if status bk \<noteq> Pending then (Inl NotPending, s)
          else (case confirmBooking_model now bk s of
                  (Inl e, s1) \<Rightarrow> (Inl ServerError, s1)
                | (Inr bk', s1) \<Rightarrow> (Inr bk', s1)))"

text \<open>
  Of the errors the model throws, the \<open>catch\<close> block of \<open>cancelBooking\<close> answers 400
  to the one whose message says that the booking cannot be cancelled, and 500 to the
  others.
\<close>

definition cancelBooking ::
  "timestamp \<Rightarrow> user \<Rightarrow> objectId \<Rightarrow> string \<Rightarrow> store \<Rightarrow> (error + booking) \<times> store" where
  "cancelBooking now usr i reason s =
     (case findBooking s i of
        None \<Rightarrow> (Inl BookingNotFound, s)
      | Some bk \<Rightarrow>
          if user_role usr \<noteq> AdminRole \<and> userId bk \<noteq> user_id usr then (Inl AccessDenied, s)
          else if status bk = Cancelled then (Inl AlreadyCancelled, s)
          else if status bk = Completed then (Inl CompletedBooking, s)
          else
            (case cancelBooking_model now
                    (if reason = [] then ''User requested cancellation'' else reason) bk s of
               (Inl e, s1) \<Rightarrow>
                 (if e = CannotBeCancelled then Inl CannotBeCancelled else Inl ServerError, s1)
             | (Inr bk', s1) \<Rightarrow> (Inr bk', s1)))"

section \<open>The specification's reading of a held seat\<close>

text \<open>
  In the specification's words: a seat label is held when a booking with status pending
  or confirmed, for the same bus and on the same calendar day, names it.
\<close>

definition heldBy :: "store \<Rightarrow> objectId \<Rightarrow> timestamp \<Rightarrow> string \<Rightarrow> bool" where
  "heldBy s bid date l =
     list_ex (\<lambda>bk. busId bk = bid
                \<and> travelDate bk div msPerDay = date div msPerDay
                \<and> (status bk = Pending \<or> status bk = Confirmed)
                \<and> l \<in> set (map seatNumber (passengerDetails bk))) (bookings s)"

section \<open>Example data\<close>

text \<open>
  Tuesday the third of November 2026, midnight UTC, and a bus that runs on weekdays
  with two seats left.
\<close>

definition exNow :: timestamp where
  "exNow = 1793664000000"

definition exBus :: bus where
  "exBus = \<lparr>bus_id = 1, capacity = 40, availableSeats = 2, fare = 50,
            operatingDays = [Monday, Tuesday, Wednesday, Thursday, Friday],
            bus_status = Active\<rparr>"

definition exUser :: user where
  "exUser = \<lparr>user_id = 7, user_role = UserRole\<rparr>"

definition exPassengers :: "passenger list" where
  "exPassengers = [\<lparr>seatNumber = ''A1''\<rparr>, \<lparr>seatNumber = ''A2''\<rparr>]"

definition exThree :: "passenger list" where
  "exThree = exPassengers @ [\<lparr>seatNumber = ''A3''\<rparr>]"

text \<open>A request for two seats on Wednesday the fourth, 06:00, thirty hours ahead.\<close>

definition exRequest :: createRequest where
  "exRequest = \<lparr>validationOk = True, req_user = exUser, req_busId = 1,
                req_passengerDetails = exPassengers, req_travelDate = exNow + 108000000,
                req_paymentMethod = Card\<rparr>"

definition exStore :: store where
  "exStore = \<lparr>buses = [exBus], bookings = []\<rparr>"

text \<open>
  A confirmed booking of those two seats, made the day before, and the stores that
  hold it: with its bus sold out, with its bus at two seats, and without its bus.
\<close>

definition exBooking :: booking where
  "exBooking = \<lparr>booking_id = 1, userId = 7, busId = 1, passengerDetails = exPassengers,
                bookingDate = Some (exNow - 86400000), travelDate = exNow + 108000000,
                totalAmount = Finite 100, seatCount = 2, status = Confirmed,
                paymentStatus = Paid, paymentMethod = Card, cancellationReason = None,
                cancellationDate = None, refundAmount = Finite 0\<rparr>"

definition exBookedStore :: store where
  "exBookedStore = \<lparr>buses = [exBus\<lparr>availableSeats := 0\<rparr>], bookings = [exBooking]\<rparr>"

definition exOpenStore :: store where
  "exOpenStore = \<lparr>buses = [exBus], bookings = [exBooking]\<rparr>"

definition exOrphanStore :: store where
  "exOrphanStore = \<lparr>buses = [], bookings = [exBooking]\<rparr>"



definition exOverBus :: bus where
  "exOverBus = exBus\<lparr>availableSeats := 50\<rparr>"

definition exOverStore :: store where
  "exOverStore = \<lparr>buses = [exOverBus], bookings = []\<rparr>"

text \<open>An amount that is a double but not a whole number: 3.333333333333333.\<close>

definition exThirds :: rat where
  "exThirds = 3752999689475413 / 2 ^ 50"

section \<open>Helper lemmas: persistence and the ledger\<close>

lemma find_replaceBus:
  "find (\<lambda>b. bus_id b = i) (replaceBus d bs) =
     (case find (\<lambda>b. bus_id b = i) bs of
        None \<Rightarrow> None
      | Some x \<Rightarrow> Some (if i = bus_id d then d else x))"
  by (induction bs) (auto simp: replaceBus_def)

lemma findBus_replaceBus:
  "findBus (s\<lparr>buses := replaceBus d (buses s)\<rparr>) i =
     (case findBus s i of
        None \<Rightarrow> None
      | Some x \<Rightarrow> Some (if i = bus_id d then d else x))"
  by (simp add: findBus_def find_replaceBus)

lemma bus_id_busPreSave [simp]: "bus_id (busPreSave n b) = bus_id b"
  by (simp add: busPreSave_def Let_def)

lemma capacity_busPreSave [simp]: "capacity (busPreSave n b) = capacity b"
  by (simp add: busPreSave_def Let_def)

lemma busPreSave_noop: "availableSeats b \<le> capacity b \<Longrightarrow> busPreSave False b = b"
  by (simp add: busPreSave_def)

lemma busPreSave_clamp:
  "busPreSave False b = b\<lparr>availableSeats := min (availableSeats b) (capacity b)\<rparr>"
  by (simp add: busPreSave_def min_def)

lemma ledgerOk_busPreSave:
  "0 \<le> availableSeats b \<Longrightarrow> 0 \<le> capacity b \<Longrightarrow> ledgerOk (busPreSave isNew b)"
  by (simp add: busPreSave_def ledgerOk_def Let_def)

lemma ledgerOk_valid: "busSchemaValid b \<Longrightarrow> ledgerOk (busPreSave isNew b)"
  by (rule ledgerOk_busPreSave) (simp_all add: busSchemaValid_def)

lemma saveBus_ok:
  "busSchemaValid b \<Longrightarrow> findBus s (bus_id b) \<noteq> None \<Longrightarrow>
   saveBus b s = (Inr (busPreSave False b),
                  s\<lparr>buses := replaceBus (busPreSave False b) (buses s)\<rparr>)"
  by (simp add: saveBus_def Let_def)

lemma saveBus_InrD:
  "saveBus b s = (Inr b', s') \<Longrightarrow>
   busSchemaValid b \<and> findBus s (bus_id b) \<noteq> None \<and> b' = busPreSave False b
     \<and> s' = s\<lparr>buses := replaceBus b' (buses s)\<rparr>"
  by (auto simp: saveBus_def Let_def split: if_splits)

lemma saveBus_InlD:
  "saveBus b s = (Inl e, s') \<Longrightarrow>
   s' = s \<and> (if busSchemaValid b then e = DocumentNotFound \<and> findBus s (bus_id b) = None
              else e = ValidationError)"
  by (auto simp: saveBus_def Let_def split: if_splits)

lemma bookings_saveBus [simp]: "bookings (snd (saveBus b s)) = bookings s"
  by (simp add: saveBus_def Let_def)

lemma storeOk_replaceBus:
  "storeOk s \<Longrightarrow> ledgerOk d \<Longrightarrow> storeOk (s\<lparr>buses := replaceBus d (buses s)\<rparr>)"
  by (auto simp: storeOk_def replaceBus_def list_all_iff)

lemma storeOk_saveBus: "storeOk s \<Longrightarrow> storeOk (snd (saveBus b s))"
  by (simp add: saveBus_def Let_def storeOk_replaceBus ledgerOk_valid)

lemma storeOk_Bus_create: "storeOk s \<Longrightarrow> storeOk (snd (Bus_create b s))"
  by (simp add: Bus_create_def Let_def storeOk_def ledgerOk_valid)

lemma findBus_SomeD: "findBus s i = Some b \<Longrightarrow> b \<in> set (buses s) \<and> bus_id b = i"
  by (auto simp: findBus_def find_Some_iff)

lemma storeOk_findBus: "storeOk s \<Longrightarrow> findBus s i = Some b \<Longrightarrow> ledgerOk b"
  by (auto simp: storeOk_def list_all_iff dest: findBus_SomeD)

lemma bookSeats_InrD:
  "bookSeats b n s = (Inr b', s') \<Longrightarrow>
   int n \<le> availableSeats b
     \<and> saveBus (b\<lparr>availableSeats := availableSeats b - int n\<rparr>) s = (Inr b', s')"
  by (simp add: bookSeats_def split: if_splits)

lemma bookSeats_short:
  "availableSeats b < int n \<Longrightarrow> bookSeats b n s = (Inl NotEnoughSeats, s)"
  by (simp add: bookSeats_def)

lemma bookSeats_InlD: "bookSeats b n s = (Inl e, s') \<Longrightarrow> s' = s"
  by (auto simp: bookSeats_def split: if_splits dest: saveBus_InlD)

lemma storeOk_bookSeats: "storeOk s \<Longrightarrow> storeOk (snd (bookSeats b n s))"
  by (simp add: bookSeats_def storeOk_saveBus)

lemma storeOk_releaseSeats: "storeOk s \<Longrightarrow> storeOk (snd (releaseSeats b n s))"
  by (simp add: releaseSeats_def storeOk_saveBus)

lemma bookings_releaseSeats [simp]: "bookings (snd (releaseSeats b n s)) = bookings s"
  by (simp add: releaseSeats_def)

lemma bookings_bookSeats [simp]: "bookings (snd (bookSeats b n s)) = bookings s"
  by (simp add: bookSeats_def)

text \<open>
  Reserving on a stored bus that passes the validators: the bus is stored with the
  lowered count, clamped to the capacity by the hook.
\<close>

lemma reserve_ok:
  assumes "busSchemaValid b" and "findBus s (bus_id b) \<noteq> None" and "int n \<le> availableSeats b"
  shows "\<exists>b' s'. bookSeats b n s = (Inr b', s')
           \<and> b' = b\<lparr>availableSeats := min (availableSeats b - int n) (capacity b)\<rparr>
           \<and> findBus s' (bus_id b) = Some b' \<and> bookings s' = bookings s"
proof -
  let ?d = "b\<lparr>availableSeats := availableSeats b - int n\<rparr>"
  let ?b' = "busPreSave False ?d"
  from assms have v: "busSchemaValid ?d" by (simp add: busSchemaValid_def)
  from assms(2) have f: "findBus s (bus_id ?d) \<noteq> None" by simp
  have "bookSeats b n s = (Inr ?b', s\<lparr>buses := replaceBus ?b' (buses s)\<rparr>)"
    using assms(3) saveBus_ok [OF v f] by (simp add: bookSeats_def)
  moreover have "?b' = b\<lparr>availableSeats := min (availableSeats b - int n) (capacity b)\<rparr>"
    by (simp add: busPreSave_clamp)
  moreover have "findBus (s\<lparr>buses := replaceBus ?b' (buses s)\<rparr>) (bus_id b) = Some ?b'"
    using assms(2) by (auto simp: findBus_replaceBus split: option.splits)
  ultimately show ?thesis by simp
qed

text \<open>Releasing on a stored bus that passes the validators succeeds.\<close>

lemma release_ok:
  assumes "busSchemaValid b" and "findBus s (bus_id b) \<noteq> None"
  shows "\<exists>b' s'. releaseSeats b n s = (Inr b', s')
           \<and> b' = b\<lparr>availableSeats := min (availableSeats b + int n) (capacity b)\<rparr>
           \<and> busSchemaValid b'
           \<and> s' = s\<lparr>buses := replaceBus b' (buses s)\<rparr>
           \<and> findBus s' (bus_id b) = Some b' \<and> bookings s' = bookings s"
proof -
  let ?d = "b\<lparr>availableSeats := min (availableSeats b + int n) (capacity b)\<rparr>"
  from assms(1) have v: "busSchemaValid ?d" by (simp add: busSchemaValid_def)
  from assms(2) have f: "findBus s (bus_id ?d) \<noteq> None" by simp
  have pre: "busPreSave False ?d = ?d" by (rule busPreSave_noop) simp
  have "releaseSeats b n s = (Inr ?d, s\<lparr>buses := replaceBus ?d (buses s)\<rparr>)"
    using saveBus_ok [OF v f] by (simp add: releaseSeats_def pre)
  moreover have "findBus (s\<lparr>buses := replaceBus ?d (buses s)\<rparr>) (bus_id b) = Some ?d"
    using assms(2) by (auto simp: findBus_replaceBus split: option.splits)
  ultimately show ?thesis using v by simp
qed

lemma releaseSeats_InrD:
  "releaseSeats b n s = (Inr b', s') \<Longrightarrow>
   b' = b\<lparr>availableSeats := min (availableSeats b + int n) (capacity b)\<rparr>
     \<and> busSchemaValid b' \<and> findBus s (bus_id b) \<noteq> None
     \<and> s' = s\<lparr>buses := replaceBus b' (buses s)\<rparr>"
  unfolding releaseSeats_def
  by (drule saveBus_InrD) (auto simp: busPreSave_noop busSchemaValid_def)

lemma releaseSeats_InlD: "releaseSeats b n s = (Inl e, s') \<Longrightarrow> s' = s"
  by (auto simp: releaseSeats_def dest: saveBus_InlD)

subsection \<open>Hours until travel\<close>

lemma hours_gt:
  "0 < k \<Longrightarrow> (hoursUntilTravel now bk > of_int k) = (travelDate bk - now > k * 3600000)"
proof -
  have "(of_int k < (of_int (travelDate bk - now) :: rat) / 3600000)
          = ((of_int (k * 3600000) :: rat) < of_int (travelDate bk - now))"
    by (simp add: pos_less_divide_eq)
  also have "\<dots> = (k * 3600000 < travelDate bk - now)"
    by (rule of_int_less_iff)
  finally show ?thesis by (simp add: hoursUntilTravel_def)
qed

lemma hours_gt_2: "(hoursUntilTravel now bk > 2) = (travelDate bk - now > 7200000)"
  using hours_gt [of 2 now bk] by simp

lemma hours_gt_24: "(hoursUntilTravel now bk > 24) = (travelDate bk - now > 86400000)"
  using hours_gt [of 24 now bk] by simp

lemma startOfDay_le: "startOfDay t \<le> t"
  by (simp add: startOfDay_def msPerDay_def)

lemma canCancel_travelDate: "canCancel now bk \<Longrightarrow> startOfDay now \<le> travelDate bk"
  using startOfDay_le [of now] by (simp add: canCancel_def hours_gt_2 split: if_splits)

subsection \<open>Bookings in the store\<close>



lemma findBooking_SomeD:
  "findBooking s i = Some bk \<Longrightarrow> bk \<in> set (bookings s) \<and> booking_id bk = i"
  by (auto simp: findBooking_def find_Some_iff)

lemma saveBooking_ok:
  "bookingSchemaValid now bk \<Longrightarrow> findBooking s (booking_id bk) \<noteq> None \<Longrightarrow>
   saveBooking now bk s = (Inr bk, s\<lparr>bookings := replaceBooking bk (bookings s)\<rparr>)"
  by (simp add: saveBooking_def)


lemma saveBooking_InrD:
  "saveBooking now bk s = (Inr bk', s') \<Longrightarrow>
   bookingSchemaValid now bk \<and> findBooking s (booking_id bk) \<noteq> None \<and> bk' = bk
     \<and> s' = s\<lparr>bookings := replaceBooking bk (bookings s)\<rparr>"
  by (auto simp: saveBooking_def split: if_splits)

lemma saveBooking_InlD: "saveBooking now bk s = (Inl e, s') \<Longrightarrow> s' = s"
  by (auto simp: saveBooking_def split: if_splits)

lemma buses_saveBooking [simp]: "buses (snd (saveBooking now bk s)) = buses s"
  by (simp add: saveBooking_def)

lemma storeOk_saveBooking [simp]: "storeOk (snd (saveBooking now bk s)) = storeOk s"
  by (simp add: storeOk_def)

lemma findBus_saveBooking [simp]: "findBus (snd (saveBooking now bk s)) i = findBus s i"
  by (simp add: findBus_def)

lemma maxId_ge: "b \<in> set bs \<Longrightarrow> booking_id b \<le> maxId bs"
  by (induction bs) auto

lemma find_fresh: "find (\<lambda>b. booking_id b = Suc (maxId bs)) bs = None"
  using maxId_ge by (fastforce simp: find_None_iff)

lemma find_snoc:
  "find P (xs @ [y]) = (case find P xs of None \<Rightarrow> (if P y then Some y else None) | Some x \<Rightarrow> Some x)"
  by (induction xs) auto

text \<open>
  A successful \<open>Booking.create\<close> stores the document under a fresh identifier, stamped
  with the time of creation.
\<close>

lemma Booking_create_ok:
  "bookingSchemaValid now d \<Longrightarrow>
   \<exists>bk s'. Booking_create now d s = (Inr bk, s')
      \<and> bk = d\<lparr>booking_id := newObjectId s, bookingDate := Some now\<rparr>
      \<and> findBooking s (booking_id bk) = None \<and> findBooking s' (booking_id bk) = Some bk
      \<and> buses s' = buses s"
  by (simp add: Booking_create_def Let_def findBooking_def newObjectId_def find_snoc find_fresh)

text \<open>
  Data without a \<open>bookingDate\<close> does not pass the validators: \<open>Booking.create\<close> throws
  before the hook that would stamp the date has run.
\<close>

lemma Booking_create_undated:
  "bookingDate d = None \<Longrightarrow> Booking_create now d s = (Inl ValidationError, s)"
  by (simp add: Booking_create_def bookingSchemaValid_def)

lemma bookingDate_bookingData [simp]: "bookingDate (bookingData req amount n) = None"
  by (simp add: bookingData_def)

subsection \<open>The outcomes of \<open>createBooking\<close>\<close>

text \<open>
  Every request is answered with an error, and the store is left as it was: a request
  that passes the guards ends in the \<open>catch\<close> block, with the 500, because
  \<open>Booking.create\<close> has thrown; the reservation is not reached.
\<close>

lemma createBooking_error: "\<exists>e. createBooking now req s = (Inl e, s)"
  by (simp add: createBooking_def Let_def Booking_create_undated split: option.splits)

lemma createBooking_store [simp]: "snd (createBooking now req s) = s"
  using createBooking_error [of now req s] by auto

lemma createBooking_passed:
  assumes "validationOk req" and "findBus s (req_busId req) = Some b" and "bus_status b = Active"
    and "startOfDay now \<le> req_travelDate req"
    and "dayName (req_travelDate req) \<in> set (operatingDays b)"
    and "int (length (req_passengerDetails req)) \<le> availableSeats b"
    and "requestedSeats req = []
         \<or> checkSeatAvailability s (req_busId req) (req_travelDate req) (requestedSeats req)"
  shows "createBooking now req s = (Inl ServerError, s)"
  using assms by (auto simp: createBooking_def Let_def Booking_create_undated)

lemma createBooking_conflict_kind:
  assumes "requestedSeats req \<noteq> []"
    and "\<not> checkSeatAvailability s (req_busId req) (req_travelDate req) (requestedSeats req)"
    and "validationOk req" and "findBus s (req_busId req) = Some b" and "bus_status b = Active"
    and "startOfDay now \<le> req_travelDate req"
    and "dayName (req_travelDate req) \<in> set (operatingDays b)"
    and "int (length (req_passengerDetails req)) \<le> availableSeats b"
  shows "createBooking now req s = (Inl SeatsAlreadyBooked, s)"
  using assms by (simp add: createBooking_def Let_def)

lemma createBooking_insufficient:
  assumes "validationOk req" and "findBus s (req_busId req) = Some b" and "bus_status b = Active"
    and "startOfDay now \<le> req_travelDate req"
    and "dayName (req_travelDate req) \<in> set (operatingDays b)"
    and "availableSeats b < int (length (req_passengerDetails req))"
  shows "createBooking now req s = (Inl InsufficientSeats, s)"
  using assms by (simp add: createBooking_def Let_def)

subsection \<open>Confirmation\<close>




lemma confirmBooking_buses [simp]: "buses (snd (confirmBooking now i s)) = buses s"
proof -
  have "buses (snd (case saveBooking now b s of
           (Inl e, s1) \<Rightarrow> (Inl ServerError, s1) | (Inr bk', s1) \<Rightarrow> (Inr bk', s1))) = buses s" for b
    by (simp add: saveBooking_def)
  then show ?thesis
    by (simp add: confirmBooking_def confirmBooking_model_def split: option.splits)
qed

lemma confirmBooking_storeOk: "storeOk s \<Longrightarrow> storeOk (snd (confirmBooking now i s))"
  by (simp add: storeOk_def)

subsection \<open>Cancellation\<close>

lemma eligible_cancelled:
  "status bk = Cancelled \<Longrightarrow> eligibleRefundAmount now bk = Finite 0"
  by (simp add: eligibleRefundAmount_def canCancel_def)

text \<open>
  What the model's \<open>cancelBooking\<close> makes of a booking it accepts: the refund it reads
  is that of a booking that is cancelled already.
\<close>

lemma cancel_model_eq:
  "canCancel now bk \<Longrightarrow>
   cancelBooking_model now r bk s =
     (case findBus s (busId bk) of
        None \<Rightarrow>
          saveBooking now
            (bk\<lparr>status := Cancelled, cancellationReason := Some r,
                cancellationDate := Some now, refundAmount := Finite 0,
                paymentStatus := Paid\<rparr>) s
      | Some b \<Rightarrow>
          (case releaseSeats b (seatCount bk) s of
             (Inl e, s1) \<Rightarrow> (Inl e, s1)
           | (Inr b', s1) \<Rightarrow>
               saveBooking now
                 (bk\<lparr>status := Cancelled, cancellationReason := Some r,
                     cancellationDate := Some now, refundAmount := Finite 0,
                     paymentStatus := Paid\<rparr>) s1))"
  by (simp add: cancelBooking_model_def Let_def eligible_cancelled exceeds_def
      split: option.splits prod.splits sum.splits)

lemma cancel_model_fail:
  "\<not> canCancel now bk \<Longrightarrow> cancelBooking_model now r bk s = (Inl CannotBeCancelled, s)"
  by (simp add: cancelBooking_model_def)

text \<open>
  A cancellation leaves the buses as they were or as a release has left them: what a
  release keeps of the buses, a cancellation keeps.
\<close>

lemma cancel_model_buses:
  assumes "P (buses s)" and "\<And>b n. P (buses (snd (releaseSeats b n s)))"
  shows "P (buses (snd (cancelBooking_model now r bk s)))"
proof (cases "canCancel now bk")
  case False
  with assms(1) show ?thesis by (simp add: cancel_model_fail)
next
  case True
  show ?thesis
  proof (cases "findBus s (busId bk)")
    case None
    with True assms(1) show ?thesis by (simp add: cancel_model_eq)
  next
    case (Some b)
    obtain r1 s1 where rel: "releaseSeats b (seatCount bk) s = (r1, s1)"
      by (cases "releaseSeats b (seatCount bk) s")
    from assms(2) [of b "seatCount bk"] rel have "P (buses s1)" by simp
    with True Some rel show ?thesis
      by (cases r1) (simp_all add: cancel_model_eq)
  qed
qed

lemma cancelBooking_buses:
  assumes "P (buses s)" and "\<And>b n. P (buses (snd (releaseSeats b n s)))"
  shows "P (buses (snd (cancelBooking now usr i reason s)))"
proof -
  have "P (buses (snd (case cancelBooking_model now r' bk s of
           (Inl e, s1) \<Rightarrow>
             (if e = CannotBeCancelled then Inl CannotBeCancelled else Inl ServerError, s1)
         | (Inr bk', s1) \<Rightarrow> (Inr bk', s1))))" for r' bk
    using cancel_model_buses [of P s now r' bk, OF assms]
    by (cases "cancelBooking_model now r' bk s") (auto split: sum.splits)
  with assms(1) show ?thesis
    by (simp add: cancelBooking_def split: option.splits)
qed

lemma cancelBooking_storeOk: "storeOk s \<Longrightarrow> storeOk (snd (cancelBooking now usr i r s))"
  unfolding storeOk_def
  by (rule cancelBooking_buses) (simp_all add: storeOk_releaseSeats [unfolded storeOk_def])

lemma cancelBooking_InrD:
  assumes "cancelBooking now usr i reason s = (Inr bk', s')"
  shows "\<exists>bk r. findBooking s i = Some bk \<and> canCancel now bk
           \<and> cancelBooking_model now r bk s = (Inr bk', s')"
proof (cases "findBooking s i")
  case None
  with assms show ?thesis by (simp add: cancelBooking_def)
next
  case (Some bk)
  let ?r = "if reason = [] then ''User requested cancellation'' else reason"
  from assms Some have m: "cancelBooking_model now ?r bk s = (Inr bk', s')"
    by (auto simp: cancelBooking_def split: if_splits sum.splits prod.splits)
  then have "canCancel now bk"
    by (cases "canCancel now bk") (simp_all add: cancel_model_fail)
  with Some m show ?thesis by blast
qed

subsection \<open>The validators on the stored buses\<close>

text \<open>
  What \<open>save\<close> and \<open>create\<close> write has passed the validators, and the hook keeps it
  valid: when every stored bus passes the validators before an operation, every stored
  bus passes them after it.
\<close>

lemma valid_busPreSave: "busSchemaValid b \<Longrightarrow> busSchemaValid (busPreSave isNew b)"
  by (simp add: busSchemaValid_def busPreSave_def Let_def)

lemma valid_saveBus:
  "list_all busSchemaValid (buses s) \<Longrightarrow> list_all busSchemaValid (buses (snd (saveBus b s)))"
  by (auto simp: saveBus_def Let_def replaceBus_def list_all_iff valid_busPreSave)

lemma valid_Bus_create:
  "list_all busSchemaValid (buses s) \<Longrightarrow> list_all busSchemaValid (buses (snd (Bus_create b s)))"
  by (simp add: Bus_create_def Let_def valid_busPreSave)

lemma valid_ledger:
  "list_all busSchemaValid (buses s) \<Longrightarrow>
   list_all busSchemaValid (buses (snd (bookSeats b n s)))
   \<and> list_all busSchemaValid (buses (snd (releaseSeats b n s)))"
  by (simp add: bookSeats_def releaseSeats_def valid_saveBus)

lemma valid_controllers:
  assumes "list_all busSchemaValid (buses s)"
  shows "list_all busSchemaValid (buses (snd (createBooking now req s)))
         \<and> list_all busSchemaValid (buses (snd (confirmBooking now i s)))
         \<and> list_all busSchemaValid (buses (snd (cancelBooking now usr i reason s)))"
proof -
  have "list_all busSchemaValid (buses (snd (cancelBooking now usr i reason s)))"
    using assms by (rule cancelBooking_buses) (simp add: valid_ledger [OF assms])
  with assms show ?thesis by simp
qed

subsection \<open>The calendar day and the seat check\<close>

lemma div_eq_iff_bounds:
  assumes "0 < (D::int)"
  shows "(t div D = q) = (D * q \<le> t \<and> t < D * q + D)"
proof
  assume "t div D = q"
  then have "t = D * q + t mod D" using mult_div_mod_eq [of D t] by simp
  moreover have "0 \<le> t mod D" and "t mod D < D" using assms by simp_all
  ultimately show "D * q \<le> t \<and> t < D * q + D" by linarith
next
  assume b: "D * q \<le> t \<and> t < D * q + D"
  have "t = D * q + (t - D * q)" by simp
  moreover have "0 \<le> t - D * q" and "t - D * q < D" using b by simp_all
  ultimately show "t div D = q" by (rule int_div_pos_eq)
qed

lemma same_day: "(startOfDay d \<le> t \<and> t \<le> endOfDay d) = (t div msPerDay = d div msPerDay)"
proof -
  have pos: "0 < msPerDay" by (simp add: msPerDay_def)
  have "startOfDay d = msPerDay * (d div msPerDay)"
    by (simp add: startOfDay_def minus_mod_eq_mult_div)
  then show ?thesis
    unfolding endOfDay_def div_eq_iff_bounds [OF pos] by auto
qed

lemma same_day_conj:
  "(startOfDay d \<le> t \<and> t \<le> endOfDay d \<and> X) = (t div msPerDay = d div msPerDay \<and> X)"
  using same_day [of d t] by blast

lemma checkSeatAvailability_heldBy:
  "checkSeatAvailability s bid date labels = (\<not> list_ex (heldBy s bid date) labels)"
  by (auto simp: checkSeatAvailability_def heldBy_def Let_def list_ex_iff same_day_conj)

lemma checkSeat_filter:
  "checkSeatAvailability
     (s\<lparr>bookings := filter (\<lambda>bk. status bk \<noteq> Cancelled \<and> status bk \<noteq> Completed) (bookings s)\<rparr>)
     bid date labels = checkSeatAvailability s bid date labels"
proof -
  have "filter (\<lambda>bk. busId bk = bid \<and> startOfDay date \<le> travelDate bk \<and> travelDate bk \<le> endOfDay date
                 \<and> (status bk = Confirmed \<or> status bk = Pending))
          (filter (\<lambda>bk. status bk \<noteq> Cancelled \<and> status bk \<noteq> Completed) (bookings s))
        = filter (\<lambda>bk. busId bk = bid \<and> startOfDay date \<le> travelDate bk \<and> travelDate bk \<le> endOfDay date
                 \<and> (status bk = Confirmed \<or> status bk = Pending)) (bookings s)"
    by (induction "bookings s") (auto intro: filter_cong)
  then show ?thesis by (simp add: checkSeatAvailability_def)
qed

section \<open>Helper lemmas: rounding to a double\<close>

lemma ilog2_le: "1 \<le> n \<Longrightarrow> 2 ^ ilog2 n \<le> n"
proof (induction n rule: ilog2.induct)
  case (1 n)
  show ?case
  proof (cases "n < 2")
    case True
    with "1.prems" show ?thesis by (simp add: ilog2.simps [of n])
  next
    case False
    then have "1 \<le> n div 2" by simp
    with "1.IH" False have "2 ^ ilog2 (n div 2) \<le> n div 2" by simp
    then have "2 * 2 ^ ilog2 (n div 2) \<le> 2 * (n div 2)" by simp
    also have "\<dots> \<le> n" by simp
    finally show ?thesis using False by (simp add: ilog2.simps [of n])
  qed
qed

lemma ilog2_lt: "n < 2 ^ Suc (ilog2 n)"
proof (induction n rule: ilog2.induct)
  case (1 n)
  show ?case
  proof (cases "n < 2")
    case True
    then show ?thesis by (simp add: ilog2.simps [of n])
  next
    case False
    with "1.IH" have "n div 2 < 2 ^ Suc (ilog2 (n div 2))" by simp
    then have "n < 2 * 2 ^ Suc (ilog2 (n div 2))" by linarith
    with False show ?thesis by (simp add: ilog2.simps [of n])
  qed
qed

lemma expo_lt:
  assumes "0 < x" and "x < 2 ^ k"
  shows "expo x < int k"
proof (cases "1 \<le> x")
  case True
  let ?N = "nat \<lfloor>x\<rfloor>"
  from True have N: "1 \<le> ?N" by linarith
  have "(2::rat) ^ ilog2 ?N = of_nat (2 ^ ilog2 ?N)" by simp
  also have "\<dots> \<le> of_nat ?N" using ilog2_le [OF N] by (simp only: of_nat_le_iff)
  also have "\<dots> \<le> x" using True by (simp add: of_nat_nat)
  also have "\<dots> < 2 ^ k" by (rule assms(2))
  finally have "ilog2 ?N < k" by (simp add: power_strict_increasing_iff)
  with True show ?thesis by (simp add: expo_def)
next
  case False
  then have "expo x < 0" by (simp add: expo_def)
  then show ?thesis by simp
qed

lemma roundEven_bounds: "\<lfloor>y\<rfloor> \<le> roundEven y \<and> roundEven y \<le> \<lceil>y\<rceil>"
proof -
  have "\<lfloor>y\<rfloor> + 1 \<le> \<lceil>y\<rceil>" if "y \<noteq> of_int \<lfloor>y\<rfloor>"
    using that by (metis ceiling_altdef order_refl)
  moreover have "y - of_int \<lfloor>y\<rfloor> \<noteq> 0" if "y \<noteq> of_int \<lfloor>y\<rfloor>" using that by simp
  ultimately show ?thesis
    unfolding roundEven_def Let_def
    by (cases "y = of_int \<lfloor>y\<rfloor>") (auto simp: ceiling_le_iff le_floor_iff)
qed

lemma ulp_small:
  assumes "0 < x" and "x < 2 ^ 48"
  shows "\<exists>j\<ge>5. ulp x = 1 / 2 ^ j"
proof -
  define j where "j = nat (52 - max (expo x) (- 1022))"
  from expo_lt [OF assms] have le: "max (expo x) (- 1022) \<le> 47" by simp
  then have j5: "5 \<le> j" by (simp add: j_def)
  from le have "max (expo x) (- 1022) - 52 = - int j" by (simp add: j_def)
  then have "ulp x = power_int 2 (- int j)" by (simp add: ulp_def)
  also have "\<dots> = inverse (power_int 2 (int j))" by (rule power_int_minus)
  also have "\<dots> = 1 / 2 ^ j" by (simp add: inverse_eq_divide)
  finally show ?thesis using j5 by blast
qed

lemma floor_roundDouble:
  assumes "0 < x" and "x < 2 ^ 48" and "of_int k \<le> x" and "x \<le> of_int k + 29 / 32"
  shows "floorN (roundDouble x) = Finite (of_int k)"
proof -
  from ulp_small [OF assms(1,2)] obtain j where j5: "5 \<le> j" and u: "ulp x = 1 / 2 ^ j" by blast
  define m :: int where "m = 2 ^ j"
  define r where "r = roundEven (x * of_int m)"
  have m32: "32 \<le> m"
  proof -
    have "(2::int) ^ 5 \<le> 2 ^ j" using j5 by (intro power_increasing) simp_all
    then show ?thesis by (simp add: m_def)
  qed
  have mpos: "0 < (of_int m :: rat)" using m32 by simp
  have um: "ulp x = 1 / of_int m" by (simp add: u m_def)
  have rp: "roundPos x = of_int r / of_int m"
    by (simp add: roundPos_def um r_def)
  have lo: "k * m \<le> r"
  proof -
    have "of_int k * of_int m \<le> x * (of_int m :: rat)"
      using assms(3) mpos by (intro mult_right_mono) simp_all
    then have "of_int (k * m) \<le> x * of_int m" by simp
    then have "k * m \<le> \<lfloor>x * of_int m\<rfloor>" by (simp only: le_floor_iff)
    with roundEven_bounds [of "x * of_int m"] show ?thesis unfolding r_def by linarith
  qed
  have hi: "r \<le> (k + 1) * m - 3"
  proof -
    have "x * of_int m \<le> (of_int k + 29 / 32) * (of_int m :: rat)"
      using assms(4) mpos by (intro mult_right_mono) simp_all
    also have "\<dots> = of_int ((k + 1) * m) - 3 / 32 * of_int m" by (simp add: algebra_simps)
    also have "\<dots> \<le> of_int ((k + 1) * m) - 3"
    proof -
      have "(32::rat) \<le> of_int m" using m32 by (metis of_int_le_iff of_int_numeral)
      then show ?thesis by simp
    qed
    also have "\<dots> = of_int ((k + 1) * m - 3)" by simp
    finally have "\<lceil>x * of_int m\<rceil> \<le> (k + 1) * m - 3" by (simp only: ceiling_le_iff)
    with roundEven_bounds [of "x * of_int m"] show ?thesis unfolding r_def by linarith
  qed
  have fl: "\<lfloor>of_int r / (of_int m :: rat)\<rfloor> = k"
  proof -
    have "\<lfloor>of_int r / (of_int m :: rat)\<rfloor> = r div m" by (rule floor_divide_of_int_eq)
    also have "r div m = k"
    proof (rule int_div_pos_eq [of r m k "r - k * m"])
      show "r = m * k + (r - k * m)" by (simp add: algebra_simps)
      show "0 \<le> r - k * m" using lo by simp
      show "r - k * m < m" using hi by (simp add: algebra_simps)
    qed
    finally show ?thesis .
  qed
  have "of_int r < (of_int ((k + 1) * m) :: rat)" using hi by (simp only: of_int_less_iff)
  then have "of_int r / of_int m < (of_int (k + 1) :: rat)"
    using mpos by (simp add: pos_divide_less_eq)
  then have "roundPos x < of_int k + 1" by (simp add: rp)
  also have "\<dots> \<le> x + 1" using assms(3) by simp
  also have "\<dots> < 2 ^ 1024"
  proof -
    have "x + 1 < 2 ^ 48 + 2 ^ 48" using assms(2) by (intro add_strict_mono) simp_all
    also have "\<dots> = (2::rat) ^ 49" by simp
    also have "\<dots> \<le> 2 ^ 1024" by (intro power_increasing) simp_all
    finally show ?thesis .
  qed
  finally have lt: "roundPos x < 2 ^ 1024" .
  from assms(1) have "x \<noteq> 0" by simp
  with assms(1) lt have "roundDouble x = Finite (roundPos x)" unfolding roundDouble_def by (simp only: if_True if_False)
  then show ?thesis by (simp add: floorN_def rp fl)
qed

lemma double09_eq: "double09 = 9 / 10 + 1 / (5 * 2 ^ 53)"
  by (simp add: double09_def)

lemma refund90_whole:
  assumes "0 \<le> n" and "n < 2 ^ 48"
  shows "floorN (roundDouble (of_int n * double09)) = Finite (of_int ((9 * n) div 10))"
proof (cases "n = 0")
  case True
  then show ?thesis by (simp add: roundDouble_def floorN_def)
next
  case False
  with assms(1) have npos: "0 < n" by simp
  let ?x = "of_int n * double09"
  let ?k = "(9 * n) div 10"
  have nr: "(of_int n :: rat) < 2 ^ 48"
    using assms(2) by (metis of_int_less_iff of_int_numeral of_int_power)
  have np: "0 < (of_int n :: rat)" using npos by simp
  have dm: "(of_int (9 * n) :: rat) = of_int ?k * 10 + of_int ((9 * n) mod 10)"
    by (metis mult.commute of_int_add of_int_mult of_int_numeral div_mult_mod_eq)
  have modle: "(of_int ((9 * n) mod 10) :: rat) \<le> 9"
  proof -
    have "(9 * n) mod 10 \<le> 9" by simp
    then show ?thesis by (metis of_int_le_iff of_int_numeral)
  qed
  have modge: "0 \<le> (of_int ((9 * n) mod 10) :: rat)" by simp
  have x: "?x = of_int (9 * n) / 10 + of_int n / (5 * 2 ^ 53)"
    by (simp add: double09_eq algebra_simps)
  have 1: "0 < ?x" using np by (simp add: double09_def)
  have 2: "?x < 2 ^ 48"
  proof -
    have "?x \<le> of_int n" using np by (simp add: double09_def)
    with nr show ?thesis by simp
  qed
  have 3: "of_int ?k \<le> ?x"
  proof -
    have "of_int ?k \<le> (of_int (9 * n) :: rat) / 10" using modge by (simp add: dm)
    also have "\<dots> \<le> ?x" using np by (simp add: x)
    finally show ?thesis .
  qed
  have 4: "?x \<le> of_int ?k + 29 / 32"
  proof -
    have "(of_int (9 * n) :: rat) / 10 \<le> of_int ?k + 9 / 10" using modle by (simp add: dm)
    moreover have "(of_int n :: rat) / (5 * 2 ^ 53) \<le> 1 / 160"
      using nr by (simp add: field_simps)
    ultimately show ?thesis by (simp add: x)
  qed
  from floor_roundDouble [OF 1 2 3 4] show ?thesis .
qed

lemma half_whole:
  assumes "0 \<le> n" and "n < 2 ^ 48"
  shows "floorN (roundDouble (of_int n * (1 / 2))) = Finite (of_int (n div 2))"
proof (cases "n = 0")
  case True
  then show ?thesis by (simp add: roundDouble_def floorN_def)
next
  case False
  with assms(1) have npos: "0 < n" by simp
  let ?x = "of_int n * (1 / 2) :: rat"
  have nr: "(of_int n :: rat) < 2 ^ 48"
    using assms(2) by (metis of_int_less_iff of_int_numeral of_int_power)
  have np: "0 < (of_int n :: rat)" using npos by simp
  have dm: "(of_int n :: rat) = of_int (n div 2) * 2 + of_int (n mod 2)"
    by (metis mult.commute of_int_add of_int_mult of_int_numeral div_mult_mod_eq)
  have modle: "(of_int (n mod 2) :: rat) \<le> 1"
  proof -
    have "n mod 2 \<le> 1" by simp
    then show ?thesis by (metis of_int_le_iff of_int_1)
  qed
  have modge: "0 \<le> (of_int (n mod 2) :: rat)" by simp
  have 1: "0 < ?x" using np by simp
  have 2: "?x < 2 ^ 48" using nr np by simp
  have 3: "of_int (n div 2) \<le> ?x" using modge by (simp add: dm)
  have 4: "?x \<le> of_int (n div 2) + 29 / 32" using modle by (simp add: dm)
  from floor_roundDouble [OF 1 2 3 4] show ?thesis .
qed

lemma powi_neg: "power_int (2::rat) (- int n) = 1 / 2 ^ n"
proof -
  have "power_int (2::rat) (- int n) = inverse (power_int 2 (int n))" by (rule power_int_minus)
  also have "\<dots> = 1 / 2 ^ n" by (simp only: power_int_of_nat inverse_eq_divide)
  finally show ?thesis .
qed

lemma expo_bounds:
  assumes "0 < x"
  shows "power_int 2 (expo x) \<le> x \<and> x < power_int 2 (expo x + 1)"
proof (cases "1 \<le> x")
  case True
  let ?N = "nat \<lfloor>x\<rfloor>"
  let ?L = "ilog2 ?N"
  from True have N: "1 \<le> ?N" by linarith
  have e: "expo x = int ?L" using True by (simp add: expo_def)
  have "(2::rat) ^ ?L = of_nat (2 ^ ?L)" by simp
  also have "\<dots> \<le> of_nat ?N" using ilog2_le [OF N] by (simp only: of_nat_le_iff)
  also have "\<dots> \<le> x" using True by (simp add: of_nat_nat)
  finally have lo: "(2::rat) ^ ?L \<le> x" .
  have "Suc ?N \<le> 2 ^ Suc ?L" using ilog2_lt [of ?N] by simp
  then have "(of_nat (Suc ?N) :: rat) \<le> of_nat (2 ^ Suc ?L)" by (simp only: of_nat_le_iff)
  then have "(of_nat ?N :: rat) + 1 \<le> 2 ^ Suc ?L" by simp
  moreover have "x < of_nat ?N + 1" using True by (simp add: of_nat_nat) linarith
  ultimately have hi: "x < 2 ^ Suc ?L" by simp
  have "power_int (2::rat) (int ?L) = 2 ^ ?L" by simp
  moreover have "power_int (2::rat) (int ?L + 1) = 2 ^ Suc ?L"
    by (metis of_nat_Suc power_int_of_nat add.commute of_nat_1 of_nat_add plus_1_eq_Suc)
  ultimately show ?thesis using lo hi e by simp
next
  case False
  let ?y = "1 / x"
  let ?K = "nat (\<lceil>?y\<rceil> - 1)"
  let ?L = "ilog2 ?K"
  from False assms have y1: "1 < ?y" by simp
  then have c2: "2 \<le> \<lceil>?y\<rceil>" by linarith
  then have K: "1 \<le> ?K" by linarith
  have e: "expo x = - int ?L - 1" using False by (simp add: expo_def)
  have Kc: "(of_nat ?K :: rat) = of_int \<lceil>?y\<rceil> - 1"
  proof -
    from c2 have "0 \<le> \<lceil>?y\<rceil> - 1" by linarith
    then have "(of_nat (nat (\<lceil>?y\<rceil> - 1)) :: rat) = of_int (\<lceil>?y\<rceil> - 1)"
      by (rule of_nat_nat)
    also have "\<dots> = of_int \<lceil>?y\<rceil> - 1" by (simp only: of_int_diff of_int_1)
    finally show ?thesis .
  qed
  have "(2::rat) ^ ?L = of_nat (2 ^ ?L)" by simp
  also have "\<dots> \<le> of_nat ?K" using ilog2_le [OF K] by (simp only: of_nat_le_iff)
  also have "\<dots> < ?y" unfolding Kc by linarith
  finally have a: "(2::rat) ^ ?L < 1 / x" .
  have "Suc ?K \<le> 2 ^ Suc ?L" using ilog2_lt [of ?K] by simp
  then have "(of_nat (Suc ?K) :: rat) \<le> of_nat (2 ^ Suc ?L)" by (simp only: of_nat_le_iff)
  then have "(of_nat ?K :: rat) + 1 \<le> 2 ^ Suc ?L" by simp
  moreover have "?y \<le> of_nat ?K + 1" unfolding Kc by simp
  ultimately have b: "1 / x \<le> 2 ^ Suc ?L" by simp
  have p: "0 < (2::rat) ^ ?L" and p': "0 < (2::rat) ^ Suc ?L" by simp_all
  from a assms p have hi: "x < 1 / 2 ^ ?L" by (simp add: field_simps)
  from b assms p' have lo: "1 / 2 ^ Suc ?L \<le> x" by (simp add: field_simps)
  have e1: "- int ?L - 1 = - int (Suc ?L)" and e2: "- int ?L - 1 + 1 = - int ?L" by simp_all
  have "power_int (2::rat) (- int ?L - 1) = 1 / 2 ^ Suc ?L"
    unfolding e1 by (rule powi_neg)
  moreover have "power_int (2::rat) (- int ?L - 1 + 1) = 1 / 2 ^ ?L"
    unfolding e2 by (rule powi_neg)
  ultimately show ?thesis using lo hi unfolding e by (simp only:)
qed

lemma power_int_2_mono: "a \<le> b \<Longrightarrow> power_int (2::rat) a \<le> power_int 2 b"
  by (rule power_int_increasing) simp_all

lemma expo_unique:
  assumes "0 < x" and "power_int 2 e \<le> x" and "x < power_int 2 (e + 1)"
  shows "expo x = e"
proof (rule antisym)
  show "expo x \<le> e"
  proof (rule ccontr)
    assume "\<not> expo x \<le> e"
    then have "e + 1 \<le> expo x" by simp
    then have "power_int (2::rat) (e + 1) \<le> power_int 2 (expo x)" by (rule power_int_2_mono)
    with expo_bounds [OF assms(1)] assms(3) show False by simp
  qed
  show "e \<le> expo x"
  proof (rule ccontr)
    assume "\<not> e \<le> expo x"
    then have "expo x + 1 \<le> e" by simp
    then have "power_int (2::rat) (expo x + 1) \<le> power_int 2 e" by (rule power_int_2_mono)
    with expo_bounds [OF assms(1)] assms(2) show False by simp
  qed
qed

lemma roundEven_of_int: "roundEven (of_int r) = r"
  by (simp add: roundEven_def)

lemma powi_half: "power_int (2::rat) (e - 1) = power_int 2 e / 2"
  by (simp add: power_int_diff)

lemma powi_double: "power_int (2::rat) (e + 1) = power_int 2 e * 2"
  by (simp add: power_int_add)

lemma powi_pos: "0 < power_int (2::rat) e"
  by (rule zero_less_power_int) simp

lemma expo_less:
  assumes "0 < x" and "x < power_int 2 k"
  shows "expo x < k"
proof (rule ccontr)
  assume "\<not> expo x < k"
  then have "k \<le> expo x" by simp
  then have "power_int (2::rat) k \<le> power_int 2 (expo x)" by (rule power_int_2_mono)
  with expo_bounds [OF assms(1)] assms(2) show False by simp
qed

lemma half_exact:
  assumes "0 < t" and "roundPos t = t" and "- 1021 \<le> expo t"
  shows "roundPos (t * (1 / 2)) = t * (1 / 2)"
proof -
  let ?e = "expo t"
  let ?x = "t * (1 / 2)"
  have xpos: "0 < ?x" using assms(1) by simp
  from expo_bounds [OF assms(1)] have lo: "power_int 2 ?e \<le> t" and hi: "t < power_int 2 (?e + 1)"
    by simp_all
  have "power_int 2 (?e - 1) \<le> ?x" using lo by (simp add: powi_half)
  moreover have "?x < power_int 2 (?e - 1 + 1)" using hi by (simp add: powi_double)
  ultimately have ex: "expo ?x = ?e - 1" by (intro expo_unique [OF xpos])
  have m1: "max ?e (- 1022) = ?e" and m2: "max (?e - 1) (- 1022) = ?e - 1"
    using assms(3) by simp_all
  have u1: "ulp t = power_int 2 (?e - 52)" by (simp add: ulp_def m1)
  have "ulp ?x = power_int 2 (?e - 52 - 1)"
    unfolding ulp_def ex m2 by (simp add: algebra_simps)
  then have u2: "ulp ?x = ulp t / 2" by (simp only: powi_half u1)
  define q where "q = ulp t"
  have up: "0 < q" unfolding q_def u1 by (rule powi_pos)
  define r where "r = roundEven (t / q)"
  from assms(2) have tr: "t = of_int r * q" by (simp add: roundPos_def r_def q_def)
  have "of_int r * q / q = (of_int r :: rat)" using up by simp
  then have "t / q = of_int r" by (simp only: tr [symmetric])
  then have "?x / (q / 2) = of_int r" by simp
  then have "roundPos ?x = of_int r * (q / 2)"
    by (simp only: roundPos_def roundEven_of_int u2 q_def [symmetric])
  also have "\<dots> = (of_int r * q) * (1 / 2)" by simp
  also have "\<dots> = ?x" by (simp only: tr [symmetric])
  finally show ?thesis .
qed

lemma half_tiny:
  assumes "0 < x" and "x < power_int 2 (- 1022)"
  shows "0 \<le> roundPos x \<and> roundPos x < 1"
proof -
  from expo_less [OF assms] have "max (expo x) (- 1022) = - 1022" by simp
  then have "ulp x = power_int 2 (- int 1074)" by (simp add: ulp_def)
  then have u: "ulp x = 1 / 2 ^ 1074" by (simp only: powi_neg)
  have p: "0 < (2::rat) ^ 1074" by simp
  let ?y = "x * 2 ^ 1074"
  have y: "x / ulp x = ?y" by (simp add: u)
  have "power_int (2::rat) (- 1022) = power_int 2 (- int 1022)" by simp
  also have "\<dots> = 1 / 2 ^ 1022" by (rule powi_neg)
  finally have "x < 1 / 2 ^ 1022" using assms(2) by simp
  then have "?y < (1 / 2 ^ 1022) * 2 ^ 1074" using p by (simp only: mult_strict_right_mono)
  also have "\<dots> = 2 ^ 52"
  proof -
    have "(2::rat) ^ 1074 = 2 ^ 1022 * 2 ^ 52" by (simp only: power_add [symmetric]) simp
    then show ?thesis by simp
  qed
  finally have ylt: "?y < 2 ^ 52" .
  have "0 \<le> ?y" using assms(1) by simp
  then have "0 \<le> \<lfloor>?y\<rfloor>" by simp
  with roundEven_bounds [of ?y] have r0: "0 \<le> roundEven ?y" by linarith
  have "?y \<le> of_int (2 ^ 52)" using ylt by simp
  then have "\<lceil>?y\<rceil> \<le> 2 ^ 52" by (simp only: ceiling_le_iff)
  with roundEven_bounds [of ?y] have r1: "roundEven ?y \<le> 2 ^ 52" by linarith
  have rp: "roundPos x = of_int (roundEven ?y) / 2 ^ 1074"
    by (simp add: roundPos_def y u)
  have "(of_int (roundEven ?y) :: rat) \<le> of_int (2 ^ 52)" using r1 by (simp only: of_int_le_iff)
  also have "\<dots> = 2 ^ 52" by simp
  also have "\<dots> < (2::rat) ^ 1074" by (rule power_strict_increasing) simp_all
  finally have "of_int (roundEven ?y) / 2 ^ 1074 < (1::rat)" using p by (simp only: pos_divide_less_eq)
  moreover have "0 \<le> (of_int (roundEven ?y) :: rat) / 2 ^ 1074" using r0 by simp
  ultimately show ?thesis by (simp only: rp)
qed


lemma half_double:
  assumes "0 \<le> t" and "roundDouble t = Finite t"
  shows "floorN (roundDouble (t * (1 / 2))) = Finite (of_int \<lfloor>t * (1 / 2)\<rfloor>)"
proof (cases "t = 0")
  case True
  then show ?thesis by (simp add: roundDouble_def floorN_def)
next
  case False
  with assms(1) have tpos: "0 < t" by simp
  let ?x = "t * (1 / 2)"
  have xpos: "0 < ?x" and xne: "?x \<noteq> 0" using tpos by simp_all
  from assms(2) tpos False have rt: "roundPos t = t" and big: "t < 2 ^ 1024"
    by (auto simp: roundDouble_def split: if_splits)
  show ?thesis
  proof (cases "- 1021 \<le> expo t")
    case True
    from half_exact [OF tpos rt True] have e: "roundPos ?x = ?x" .
    have "?x < t" using tpos by simp
    with big have "roundPos ?x < 2 ^ 1024" by (simp only: e)
    with xpos xne have "roundDouble ?x = Finite (roundPos ?x)"
      unfolding roundDouble_def by (simp only: if_True if_False)
    then show ?thesis by (simp only: e floorN_def number.case)
  next
    case False
    then have "expo t + 1 \<le> - 1021" by simp
    then have "power_int (2::rat) (expo t + 1) \<le> power_int 2 (- 1021)" by (rule power_int_2_mono)
    with expo_bounds [OF tpos] have "t < power_int 2 (- 1021)" by simp
    moreover have "power_int (2::rat) (- 1021) = power_int 2 (- 1022) * 2"
      using powi_double [of "- 1022"] by simp
    ultimately have tiny: "?x < power_int 2 (- 1022)" by simp
    from half_tiny [OF xpos tiny] have r: "0 \<le> roundPos ?x" "roundPos ?x < 1" by simp_all
    then have f0: "\<lfloor>roundPos ?x\<rfloor> = 0" by linarith
    have "power_int (2::rat) (- 1022) = power_int 2 (- int 1022)" by simp
    also have "\<dots> = 1 / 2 ^ 1022" by (rule powi_neg)
    also have "\<dots> \<le> 1" by simp
    finally have "?x < 1" using tiny by simp
    with xpos have x0: "\<lfloor>?x\<rfloor> = 0" by linarith
    have "(1::rat) \<le> 2 ^ 1024" by simp
    with r(2) have "roundPos ?x < 2 ^ 1024" by simp
    with xpos xne have "roundDouble ?x = Finite (roundPos ?x)"
      unfolding roundDouble_def by (simp only: if_True if_False)
    then show ?thesis by (simp only: floorN_def number.case f0 x0)
  qed
qed

subsection \<open>Comparing a rounded quotient\<close>

lemma roundEven_ge: "y - 1 / 2 \<le> of_int (roundEven y)"
proof -
  have "of_int \<lfloor>y\<rfloor> \<le> y" and "y < of_int \<lfloor>y\<rfloor> + 1" by linarith+
  then show ?thesis
    unfolding roundEven_def Let_def by (auto split: if_splits)
qed

lemma roundPos_ge:
  assumes "0 < x" and "- 1022 \<le> expo x"
  shows "x * (1 - 1 / 2 ^ 53) \<le> roundPos x"
proof -
  define u where "u = ulp x"
  have upos: "0 < u" by (simp add: u_def ulp_def powi_pos)
  from assms(2) have "u = power_int 2 (expo x - 52)" by (simp add: u_def ulp_def max_def)
  also have "\<dots> = power_int 2 (expo x + (- 52))" by simp
  also have "\<dots> = power_int 2 (expo x) * power_int 2 (- 52)"
    by (rule power_int_add) simp
  also have "power_int (2::rat) (- 52) = 1 / 2 ^ 52"
    using powi_neg [of 52] by simp
  finally have "u = power_int 2 (expo x) / 2 ^ 52" by simp
  moreover from expo_bounds [OF assms(1)] have "power_int 2 (expo x) \<le> x" by simp
  ultimately have ule: "u \<le> x / 2 ^ 52" by (simp add: divide_right_mono)
  have "(x / u - 1 / 2) * u \<le> of_int (roundEven (x / u)) * u"
    using roundEven_ge [of "x / u"] upos by (intro mult_right_mono) simp_all
  moreover have "(x / u - 1 / 2) * u = x - u / 2" using upos by (simp add: algebra_simps)
  ultimately have "x - u / 2 \<le> roundPos x" by (simp add: roundPos_def u_def)
  moreover from ule have "x - x / 2 ^ 53 \<le> x - u / 2" by simp
  ultimately show ?thesis by (simp add: algebra_simps)
qed

lemma roundPos_le_int:
  assumes "0 < x" and "x < 2 ^ 48" and "x \<le> of_int c"
  shows "roundPos x \<le> of_int c"
proof -
  from ulp_small [OF assms(1,2)] obtain j where u: "ulp x = 1 / 2 ^ j" by blast
  have "x / ulp x = x * 2 ^ j" by (simp add: u)
  also have "\<dots> \<le> of_int c * 2 ^ j" using assms(3) by (intro mult_right_mono) simp_all
  also have "\<dots> = of_int (c * 2 ^ j)" by simp
  finally have "\<lceil>x / ulp x\<rceil> \<le> c * 2 ^ j" by (simp only: ceiling_le_iff)
  with roundEven_bounds [of "x / ulp x"] have "roundEven (x / ulp x) \<le> c * 2 ^ j" by linarith
  then have "(of_int (roundEven (x / ulp x)) :: rat) \<le> of_int (c * 2 ^ j)"
    by (simp only: of_int_le_iff)
  then have "of_int (roundEven (x / ulp x)) * (1 / 2 ^ j) \<le> (of_int (c * 2 ^ j) :: rat) * (1 / 2 ^ j)"
    by (intro mult_right_mono) simp_all
  then show ?thesis by (simp add: roundPos_def u)
qed

lemma roundPos_nonneg:
  assumes "0 < x"
  shows "0 \<le> roundPos x"
proof -
  define u where "u = ulp x"
  have upos: "0 < u" by (simp add: u_def ulp_def powi_pos)
  with assms have "0 \<le> x / u" by simp
  then have "0 \<le> \<lfloor>x / u\<rfloor>" by simp
  with roundEven_bounds [of "x / u"] have "0 \<le> roundEven (x / u)" by linarith
  then have "(0::rat) \<le> of_int (roundEven (x / u))" by simp
  with upos show ?thesis by (simp add: roundPos_def u_def [symmetric])
qed

lemma expo_nonneg: "1 \<le> x \<Longrightarrow> 0 \<le> expo x"
  by (simp add: expo_def)

text \<open>
  Rounding a quotient to a double does not move it across a whole number \<open>c\<close> from
  which it is at least \<open>c / 2 ^ 52\<close> away.
\<close>

lemma exceeds_roundDouble:
  assumes c: "1 \<le> c" "c < 2 ^ 47"
    and far: "of_int c < x \<longrightarrow> of_int c * (1 + 1 / 2 ^ 52) \<le> x"
  shows "exceeds (roundDouble x) (of_int c) = (of_int c < x)"
proof (cases "of_int c < x")
  case True
  have c1: "(1::rat) \<le> of_int c" using c(1) by (simp only: of_int_1_le_iff)
  with True have xpos: "0 < x" and x1: "1 \<le> x" by simp_all
  from expo_nonneg [OF x1] have e: "- 1022 \<le> expo x" by simp
  have c0: "(0::rat) < of_int c" using c by simp
  from far True have "of_int c * (1 + 1 / 2 ^ 52) \<le> x" by simp
  then have "of_int c * (1 + 1 / 2 ^ 52) * (1 - 1 / 2 ^ 53) \<le> x * (1 - 1 / 2 ^ 53)"
    by (intro mult_right_mono) simp_all
  moreover have "(of_int c :: rat) < of_int c * ((1 + 1 / 2 ^ 52) * (1 - 1 / 2 ^ 53))"
  proof -
    have "(1::rat) < (1 + 1 / 2 ^ 52) * (1 - 1 / 2 ^ 53)" by simp
    with c0 show ?thesis by simp
  qed
  ultimately have "of_int c < x * (1 - 1 / 2 ^ 53)" by (simp add: mult.assoc)
  with roundPos_ge [OF xpos e] have "of_int c < roundPos x" by simp
  with xpos True show ?thesis by (simp add: roundDouble_def exceeds_def)
next
  case False
  then have le: "x \<le> of_int c" by simp
  show ?thesis
  proof (cases "0 < x")
    case True
    have "(of_int c :: rat) < of_int (2 ^ 47)" using c(2) by (simp only: of_int_less_iff)
    with le have x48: "x < 2 ^ 48" by simp
    from roundPos_le_int [OF True x48 le] have r: "roundPos x \<le> of_int c" .
    have "(of_int c :: rat) < 2 ^ 1024"
    proof -
      have "(of_int c :: rat) < of_int (2 ^ 47)" using c(2) by (simp only: of_int_less_iff)
      also have "\<dots> \<le> 2 ^ 1024" by simp
      finally show ?thesis .
    qed
    with r have "roundPos x < 2 ^ 1024" by simp
    with True r False show ?thesis by (simp add: roundDouble_def exceeds_def)
  next
    case neg: False
    show ?thesis
    proof (cases "x = 0")
      case True
      with c False show ?thesis by (simp add: roundDouble_def exceeds_def)
    next
      case ne: False
      with neg have xneg: "x < 0" by simp
      then have "0 < - x" by simp
      then have "0 \<le> roundPos (- x)" by (rule roundPos_nonneg)
      with c xneg False show ?thesis by (simp add: roundDouble_def exceeds_def)
    qed
  qed
qed

text \<open>
  In the code \<open>hoursUntilTravel\<close> is the quotient rounded to a double. The getters compare
  it with 2 and with 24 only, and the rounded quotient exceeds them exactly when the
  quotient itself does: a quotient of whole milliseconds above the bound is above it by
  \<open>1 / 3600000\<close> at least.
\<close>

lemma hoursUntilTravel_rounded:
  "exceeds (roundDouble (hoursUntilTravel now bk)) 2 = (hoursUntilTravel now bk > 2)"
  "exceeds (roundDouble (hoursUntilTravel now bk)) 24 = (hoursUntilTravel now bk > 24)"
proof -
  define d where "d = travelDate bk - now"
  have x: "hoursUntilTravel now bk = of_int d / 3600000"
    by (simp add: hoursUntilTravel_def d_def)
  have far: "of_int k < hoursUntilTravel now bk \<longrightarrow>
             of_int k * (1 + 1 / 2 ^ 52) \<le> hoursUntilTravel now bk"
    if k: "0 < k" "k \<le> 24" for k
  proof
    assume "of_int k < hoursUntilTravel now bk"
    with hours_gt [OF k(1), of now bk] have "k * 3600000 < d" by (simp add: d_def)
    then have "k * 3600000 + 1 \<le> d" by simp
    then have "(of_int (k * 3600000 + 1) :: rat) \<le> of_int d" by (simp only: of_int_le_iff)
    then have "(of_int k * 3600000 + 1 :: rat) / 3600000 \<le> of_int d / 3600000"
      by (intro divide_right_mono) simp_all
    moreover have "of_int k * (1 + 1 / 2 ^ 52) \<le> (of_int k * 3600000 + 1 :: rat) / 3600000"
    proof -
      have "(of_int k :: rat) \<le> of_int 24" using k(2) by (simp only: of_int_le_iff)
      then have "(of_int k :: rat) / 2 ^ 52 \<le> 24 / 2 ^ 52" by (simp add: divide_right_mono)
      also have "\<dots> \<le> 1 / 3600000" by simp
      finally show ?thesis by (simp add: field_simps)
    qed
    ultimately show "of_int k * (1 + 1 / 2 ^ 52) \<le> hoursUntilTravel now bk" by (simp add: x)
  qed
  from exceeds_roundDouble [of 2 "hoursUntilTravel now bk"] far [of 2]
  show "exceeds (roundDouble (hoursUntilTravel now bk)) 2 = (hoursUntilTravel now bk > 2)"
    by simp
  from exceeds_roundDouble [of 24 "hoursUntilTravel now bk"] far [of 24]
  show "exceeds (roundDouble (hoursUntilTravel now bk)) 24 = (hoursUntilTravel now bk > 24)"
    by simp
qed

section \<open>Worked examples\<close>

lemma ex_cancel:
  "cancelBooking exNow exUser 1 ''changed plans'' exBookedStore =
     (Inr (exBooking\<lparr>status := Cancelled, cancellationReason := Some ''changed plans'',
                     cancellationDate := Some exNow, refundAmount := Finite 0\<rparr>),
      \<lparr>buses = [exBus],
       bookings = [exBooking\<lparr>status := Cancelled, cancellationReason := Some ''changed plans'',
                     cancellationDate := Some exNow, refundAmount := Finite 0\<rparr>]\<rparr>)"
  by (simp add: cancelBooking_def cancelBooking_model_def canCancel_def hoursUntilTravel_def
        eligibleRefundAmount_def findBooking_def findBus_def releaseSeats_def saveBus_def
        busSchemaValid_def busPreSave_def replaceBus_def saveBooking_def replaceBooking_def
        bookingSchemaValid_def nonNegative_def exceeds_def startOfDay_def msPerDay_def
        exBooking_def exBookedStore_def exBus_def exUser_def exNow_def exPassengers_def Let_def)

lemma ex_cancel_orphan:
  "cancelBooking exNow exUser 1 [] exOrphanStore =
     (Inr (exBooking\<lparr>status := Cancelled,
                     cancellationReason := Some ''User requested cancellation'',
                     cancellationDate := Some exNow, refundAmount := Finite 0\<rparr>),
      \<lparr>buses = [],
       bookings = [exBooking\<lparr>status := Cancelled,
                     cancellationReason := Some ''User requested cancellation'',
                     cancellationDate := Some exNow, refundAmount := Finite 0\<rparr>]\<rparr>)"
  by (simp add: cancelBooking_def cancelBooking_model_def canCancel_def hoursUntilTravel_def
        eligibleRefundAmount_def findBooking_def findBus_def saveBooking_def replaceBooking_def
        bookingSchemaValid_def nonNegative_def exceeds_def startOfDay_def msPerDay_def
        exBooking_def exOrphanStore_def exUser_def exNow_def exPassengers_def Let_def)

lemma ex_refund_due:
  "canCancel exNow exBooking \<and> eligibleRefundAmount exNow exBooking = Finite 90"
proof -
  have c: "canCancel exNow exBooking"
    by (simp add: canCancel_def hours_gt_2 exBooking_def)
  have h: "hoursUntilTravel exNow exBooking > 24"
    by (simp add: hours_gt_24 exBooking_def)
  have "floorN (roundDouble (of_int 100 * double09)) = Finite (of_int ((9 * 100) div 10))"
    by (rule refund90_whole) simp_all
  then have "floorN (timesDouble (totalAmount exBooking) double09) = Finite 90"
    by (simp add: timesDouble_def exBooking_def)
  with c h show ?thesis by (simp add: eligibleRefundAmount_def)
qed

section \<open>The ledger invariant\<close>

text \<open>
  Claim C2. \<open>0 \<le> availableSeats \<le> capacity\<close> holds after every operation: a bus that
  passes the schema's validators satisfies it once the \<open>pre('save')\<close> hook has run, and
  saving and creating a bus, seat reservation, seat release, booking creation,
  confirmation and cancellation keep it for every bus of the store, whether they
  succeed or fail; the bus that a successful reservation or release returns satisfies
  it too.
\<close>

theorem ledger_invariant:
  "(busSchemaValid b \<longrightarrow> ledgerOk (busPreSave isNew b))
   \<and> (storeOk s \<longrightarrow>
        storeOk (snd (saveBus b s)) \<and> storeOk (snd (Bus_create b s)))
   \<and> (storeOk s \<longrightarrow>
        storeOk (snd (bookSeats b n s))
        \<and> (\<forall>b' s'. bookSeats b n s = (Inr b', s') \<longrightarrow> ledgerOk b' \<and> storeOk s'))
   \<and> (storeOk s \<longrightarrow>
        storeOk (snd (releaseSeats b n s))
        \<and> (\<forall>b' s'. releaseSeats b n s = (Inr b', s') \<longrightarrow> ledgerOk b' \<and> storeOk s'))
   \<and> (storeOk s \<longrightarrow>
        storeOk (snd (createBooking now req s))
        \<and> storeOk (snd (confirmBooking now i s))
        \<and> storeOk (snd (cancelBooking now usr i reason s)))"
proof -
  have 1: "busSchemaValid b \<longrightarrow> ledgerOk (busPreSave isNew b)"
    by (simp add: ledgerOk_valid)
  have 2: "storeOk s \<longrightarrow> storeOk (snd (saveBus b s)) \<and> storeOk (snd (Bus_create b s))"
    by (simp add: storeOk_saveBus storeOk_Bus_create)
  have 3: "storeOk s \<longrightarrow>
        storeOk (snd (bookSeats b n s))
        \<and> (\<forall>b' s'. bookSeats b n s = (Inr b', s') \<longrightarrow> ledgerOk b' \<and> storeOk s')"
  proof (intro impI conjI allI)
    assume ok: "storeOk s"
    then show "storeOk (snd (bookSeats b n s))" by (rule storeOk_bookSeats)
    fix b' s'
    assume r: "bookSeats b n s = (Inr b', s')"
    from bookSeats_InrD [OF r] saveBus_InrD
    have "busSchemaValid (b\<lparr>availableSeats := availableSeats b - int n\<rparr>)
          \<and> b' = busPreSave False (b\<lparr>availableSeats := availableSeats b - int n\<rparr>)"
      by blast
    then show "ledgerOk b'" by (simp add: ledgerOk_valid)
    from storeOk_bookSeats [OF ok, of b n] r show "storeOk s'" by simp
  qed
  have 4: "storeOk s \<longrightarrow>
        storeOk (snd (releaseSeats b n s))
        \<and> (\<forall>b' s'. releaseSeats b n s = (Inr b', s') \<longrightarrow> ledgerOk b' \<and> storeOk s')"
  proof (intro impI conjI allI)
    assume ok: "storeOk s"
    then show "storeOk (snd (releaseSeats b n s))" by (rule storeOk_releaseSeats)
    fix b' s'
    assume r: "releaseSeats b n s = (Inr b', s')"
    from releaseSeats_InrD [OF r] show "ledgerOk b'"
      by (auto simp: ledgerOk_def busSchemaValid_def)
    from storeOk_releaseSeats [OF ok, of b n] r show "storeOk s'" by simp
  qed
  have 5: "storeOk s \<longrightarrow>
        storeOk (snd (createBooking now req s))
        \<and> storeOk (snd (confirmBooking now i s))
        \<and> storeOk (snd (cancelBooking now usr i reason s))"
    by (simp add: confirmBooking_storeOk cancelBooking_storeOk)
  from 1 2 3 4 5 show ?thesis by (intro conjI)
qed

lemma ex_storeOk: "storeOk exStore \<and> storeOk exBookedStore"
  by (simp add: storeOk_def ledgerOk_def exStore_def exBookedStore_def exBus_def)

lemma ex_valid: "busSchemaValid exBus"
  by (simp add: busSchemaValid_def exBus_def)

lemma ex_bookSeats:
  "bookSeats exBus 2 exOpenStore = (Inr (exBus\<lparr>availableSeats := 0\<rparr>), exBookedStore)"
  by (simp add: bookSeats_def saveBus_def busSchemaValid_def busPreSave_def findBus_def
      replaceBus_def exBus_def exOpenStore_def exBookedStore_def Let_def)

lemma ex_releaseSeats:
  "releaseSeats (exBus\<lparr>availableSeats := 0\<rparr>) 2 exBookedStore = (Inr exBus, exOpenStore)"
  by (simp add: releaseSeats_def saveBus_def busSchemaValid_def busPreSave_def findBus_def
      replaceBus_def exBus_def exOpenStore_def exBookedStore_def Let_def)

theorem ledger_invariant_witness:
  "busSchemaValid exBus \<and> storeOk exOpenStore \<and> storeOk exBookedStore
   \<and> ledgerOk (busPreSave True exBus)
   \<and> storeOk (snd (Bus_create exBus exOpenStore))
   \<and> bookSeats exBus 2 exOpenStore = (Inr (exBus\<lparr>availableSeats := 0\<rparr>), exBookedStore)
   \<and> ledgerOk (exBus\<lparr>availableSeats := 0\<rparr>)
   \<and> releaseSeats (exBus\<lparr>availableSeats := 0\<rparr>) 2 exBookedStore = (Inr exBus, exOpenStore)
   \<and> ledgerOk exBus
   \<and> storeOk (snd (createBooking exNow exRequest exOpenStore))
   \<and> storeOk (snd (confirmBooking exNow 1 exBookedStore))
   \<and> storeOk (snd (cancelBooking exNow exUser 1 [] exBookedStore))"
proof -
  have o: "storeOk exOpenStore"
    by (simp add: storeOk_def ledgerOk_def exOpenStore_def exBus_def)
  from ledger_invariant [of exBus True exOpenStore 2 exNow exRequest 1 exUser "[]"]
    ledger_invariant [of "exBus\<lparr>availableSeats := 0\<rparr>" True exBookedStore 2 exNow exRequest 1
      exUser "[]"]
    ex_valid ex_storeOk o ex_bookSeats ex_releaseSeats
  show ?thesis by simp
qed

section \<open>Reserving seats\<close>

text \<open>
  Claim C3, as amended. For a bus that is stored and passes the schema's validators and
  a count \<open>n\<close> with \<open>availableSeats \<ge> n\<close>, \<open>bookSeats\<close> succeeds and stores the bus with
  \<open>min (availableSeats - n) capacity\<close> seats: the \<open>pre('save')\<close> hook lowers a count above
  the capacity to the capacity. So the count goes down by exactly \<open>n\<close> when
  \<open>availableSeats - n \<le> capacity\<close>, as it is for every bus within the ledger invariant.
  With \<open>availableSeats < n\<close>, \<open>bookSeats\<close> throws \<open>NotEnoughSeats\<close> and stores nothing,
  and \<open>createBooking\<close> answers \<open>InsufficientSeats\<close> with the store unchanged when its
  earlier checks have passed.
\<close>

theorem bookSeats_reserve:
  "(busSchemaValid b \<and> findBus s (bus_id b) \<noteq> None \<and> int n \<le> availableSeats b \<longrightarrow>
      (\<exists>b' s'. bookSeats b n s = (Inr b', s')
         \<and> b' = b\<lparr>availableSeats := min (availableSeats b - int n) (capacity b)\<rparr>
         \<and> (availableSeats b - int n \<le> capacity b \<longrightarrow>
              b' = b\<lparr>availableSeats := availableSeats b - int n\<rparr>)
         \<and> findBus s' (bus_id b) = Some b' \<and> bookings s' = bookings s))
   \<and> (availableSeats b < int n \<longrightarrow> bookSeats b n s = (Inl NotEnoughSeats, s))
   \<and> (validationOk req \<and> findBus s (req_busId req) = Some b \<and> bus_status b = Active
        \<and> startOfDay now \<le> req_travelDate req
        \<and> dayName (req_travelDate req) \<in> set (operatingDays b)
        \<and> availableSeats b < int (length (req_passengerDetails req)) \<longrightarrow>
        createBooking now req s = (Inl InsufficientSeats, s))"
proof (intro conjI impI)
  assume h: "busSchemaValid b \<and> findBus s (bus_id b) \<noteq> None \<and> int n \<le> availableSeats b"
  then obtain b' s' where r: "bookSeats b n s = (Inr b', s')"
      "b' = b\<lparr>availableSeats := min (availableSeats b - int n) (capacity b)\<rparr>"
      "findBus s' (bus_id b) = Some b'" "bookings s' = bookings s"
    using reserve_ok [of b s n] by blast
  from r(2) have "availableSeats b - int n \<le> capacity b \<longrightarrow>
              b' = b\<lparr>availableSeats := availableSeats b - int n\<rparr>"
    by (simp add: min_def)
  with r show "\<exists>b' s'. bookSeats b n s = (Inr b', s')
         \<and> b' = b\<lparr>availableSeats := min (availableSeats b - int n) (capacity b)\<rparr>
         \<and> (availableSeats b - int n \<le> capacity b \<longrightarrow>
              b' = b\<lparr>availableSeats := availableSeats b - int n\<rparr>)
         \<and> findBus s' (bus_id b) = Some b' \<and> bookings s' = bookings s"
    by blast
next
  assume "availableSeats b < int n"
  then show "bookSeats b n s = (Inl NotEnoughSeats, s)" by (rule bookSeats_short)
next
  assume "validationOk req \<and> findBus s (req_busId req) = Some b \<and> bus_status b = Active
        \<and> startOfDay now \<le> req_travelDate req
        \<and> dayName (req_travelDate req) \<in> set (operatingDays b)
        \<and> availableSeats b < int (length (req_passengerDetails req))"
  then show "createBooking now req s = (Inl InsufficientSeats, s)"
    using createBooking_insufficient [of req s b now] by blast
qed

lemma ex_three:
  "validationOk (exRequest\<lparr>req_passengerDetails := exThree\<rparr>)
   \<and> findBus exStore (req_busId (exRequest\<lparr>req_passengerDetails := exThree\<rparr>)) = Some exBus
   \<and> bus_status exBus = Active
   \<and> startOfDay exNow \<le> req_travelDate (exRequest\<lparr>req_passengerDetails := exThree\<rparr>)
   \<and> dayName (req_travelDate (exRequest\<lparr>req_passengerDetails := exThree\<rparr>))
        \<in> set (operatingDays exBus)
   \<and> availableSeats exBus < int (length (req_passengerDetails
        (exRequest\<lparr>req_passengerDetails := exThree\<rparr>)))"
  by (simp add: exRequest_def exThree_def exPassengers_def findBus_def exStore_def exBus_def
      startOfDay_def dayName_def msPerDay_def exNow_def)

theorem bookSeats_reserve_witness:
  "busSchemaValid exBus \<and> findBus exOpenStore (bus_id exBus) \<noteq> None
   \<and> int 2 \<le> availableSeats exBus \<and> availableSeats exBus - int 2 \<le> capacity exBus
   \<and> bookSeats exBus 2 exOpenStore = (Inr (exBus\<lparr>availableSeats := 0\<rparr>), exBookedStore)
   \<and> findBus exBookedStore (bus_id exBus) = Some (exBus\<lparr>availableSeats := 0\<rparr>)
   \<and> availableSeats exBus < int 3
   \<and> bookSeats exBus 3 exStore = (Inl NotEnoughSeats, exStore)
   \<and> createBooking exNow (exRequest\<lparr>req_passengerDetails := exThree\<rparr>) exStore
       = (Inl InsufficientSeats, exStore)"
proof -
  have a: "findBus exOpenStore (bus_id exBus) \<noteq> None \<and> int 2 \<le> availableSeats exBus
           \<and> availableSeats exBus - int 2 \<le> capacity exBus \<and> availableSeats exBus < int 3
           \<and> exBus\<lparr>availableSeats := availableSeats exBus - int 2\<rparr> = exBus\<lparr>availableSeats := 0\<rparr>"
    by (simp add: findBus_def exOpenStore_def exBus_def)
  from bookSeats_reserve [of exBus exOpenStore 2 "exRequest\<lparr>req_passengerDetails := exThree\<rparr>" exNow]
    bookSeats_reserve [of exBus exStore 3 "exRequest\<lparr>req_passengerDetails := exThree\<rparr>" exNow]
    ex_valid a ex_three ex_bookSeats
  show ?thesis by auto
qed

text \<open>
  Claim C3 as first stated promises the decrement by exactly \<open>count\<close> for every bus with
  \<open>availableSeats \<ge> count\<close>. A bus whose ledger stands above its capacity, as an update
  of the bus can leave it (an update does not run the hook), is cut back to the
  capacity by the save: with capacity 40 and 50 seats available, reserving 2 seats stores
  40, not 48.
\<close>

theorem bookSeats_reserve_counterexample:
  "busSchemaValid exOverBus \<and> findBus exOverStore (bus_id exOverBus) = Some exOverBus
   \<and> int 2 \<le> availableSeats exOverBus
   \<and> availableSeats exOverBus - int 2 = 48
   \<and> bookSeats exOverBus 2 exOverStore
       = (Inr (exOverBus\<lparr>availableSeats := 40\<rparr>),
          \<lparr>buses = [exOverBus\<lparr>availableSeats := 40\<rparr>], bookings = []\<rparr>)"
  by (simp add: bookSeats_def saveBus_def busSchemaValid_def busPreSave_def findBus_def
      replaceBus_def exOverBus_def exOverStore_def exBus_def Let_def)

section \<open>Releasing seats\<close>

text \<open>
  Claim C4. For every bus that is stored and passes the schema's validators, and for
  every count \<open>n\<close>, \<open>releaseSeats\<close> succeeds: the released document passes the
  validators, so the save does not throw. It stores the bus with
  \<open>min (availableSeats + n) capacity\<close> seats, which is within the capacity; a second
  release on the result succeeds as well and stays within the capacity. The buses that
  a cancellation finds are of this kind: they are stored, and the operations keep the
  stored buses within the validators (lemmas \<open>valid_saveBus\<close> to \<open>valid_controllers\<close>).
\<close>

theorem releaseSeats_clamps:
  "busSchemaValid b \<and> findBus s (bus_id b) \<noteq> None \<longrightarrow>
     (\<exists>b' s'. releaseSeats b n s = (Inr b', s')
        \<and> b' = b\<lparr>availableSeats := min (availableSeats b + int n) (capacity b)\<rparr>
        \<and> busSchemaValid b'
        \<and> findBus s' (bus_id b) = Some b' \<and> bookings s' = bookings s
        \<and> availableSeats b' \<le> capacity b'
        \<and> (\<exists>b'' s''. releaseSeats b' m s' = (Inr b'', s'')
              \<and> availableSeats b'' = min (availableSeats b + int n + int m) (capacity b)
              \<and> findBus s'' (bus_id b) = Some b''
              \<and> availableSeats b'' \<le> capacity b''))"
proof
  assume h: "busSchemaValid b \<and> findBus s (bus_id b) \<noteq> None"
  from release_ok [of b s n] h obtain b' s' where r:
      "releaseSeats b n s = (Inr b', s')"
      "b' = b\<lparr>availableSeats := min (availableSeats b + int n) (capacity b)\<rparr>"
      "busSchemaValid b'" "findBus s' (bus_id b) = Some b'" "bookings s' = bookings s"
    by blast
  from r(2) have id: "bus_id b' = bus_id b" and cap: "capacity b' = capacity b" by simp_all
  from r(4) id have st: "findBus s' (bus_id b') \<noteq> None" by simp
  from release_ok [OF r(3) st, of m] obtain b'' s'' where q:
      "releaseSeats b' m s' = (Inr b'', s'')"
      "b'' = b'\<lparr>availableSeats := min (availableSeats b' + int m) (capacity b')\<rparr>"
      "findBus s'' (bus_id b') = Some b''"
    by blast
  from q(2) r(2) have "availableSeats b'' = min (availableSeats b + int n + int m) (capacity b)"
    by (simp add: min_def)
  moreover from q(2) have "availableSeats b'' \<le> capacity b''" by simp
  moreover from r(2) have "availableSeats b' \<le> capacity b'" by simp
  ultimately show "\<exists>b' s'. releaseSeats b n s = (Inr b', s')
        \<and> b' = b\<lparr>availableSeats := min (availableSeats b + int n) (capacity b)\<rparr>
        \<and> busSchemaValid b'
        \<and> findBus s' (bus_id b) = Some b' \<and> bookings s' = bookings s
        \<and> availableSeats b' \<le> capacity b'
        \<and> (\<exists>b'' s''. releaseSeats b' m s' = (Inr b'', s'')
              \<and> availableSeats b'' = min (availableSeats b + int n + int m) (capacity b)
              \<and> findBus s'' (bus_id b) = Some b''
              \<and> availableSeats b'' \<le> capacity b'')"
    using r q id by auto
qed

lemma ex_release_45:
  "releaseSeats exBus 45 exStore
     = (Inr (exBus\<lparr>availableSeats := 40\<rparr>),
        \<lparr>buses = [exBus\<lparr>availableSeats := 40\<rparr>], bookings = []\<rparr>)
   \<and> releaseSeats (exBus\<lparr>availableSeats := 40\<rparr>) 1
        \<lparr>buses = [exBus\<lparr>availableSeats := 40\<rparr>], bookings = []\<rparr>
     = (Inr (exBus\<lparr>availableSeats := 40\<rparr>),
        \<lparr>buses = [exBus\<lparr>availableSeats := 40\<rparr>], bookings = []\<rparr>)"
  by (simp add: releaseSeats_def saveBus_def busSchemaValid_def busPreSave_def findBus_def
      replaceBus_def exBus_def exStore_def Let_def)

theorem releaseSeats_clamps_witness:
  "busSchemaValid exBus \<and> findBus exStore (bus_id exBus) \<noteq> None
   \<and> releaseSeats exBus 45 exStore
       = (Inr (exBus\<lparr>availableSeats := 40\<rparr>),
          \<lparr>buses = [exBus\<lparr>availableSeats := 40\<rparr>], bookings = []\<rparr>)
   \<and> capacity exBus = 40
   \<and> releaseSeats (exBus\<lparr>availableSeats := 40\<rparr>) 1
        \<lparr>buses = [exBus\<lparr>availableSeats := 40\<rparr>], bookings = []\<rparr>
       = (Inr (exBus\<lparr>availableSeats := 40\<rparr>),
          \<lparr>buses = [exBus\<lparr>availableSeats := 40\<rparr>], bookings = []\<rparr>)"
proof -
  have a: "findBus exStore (bus_id exBus) \<noteq> None \<and> capacity exBus = 40"
    by (simp add: findBus_def exStore_def exBus_def)
  from releaseSeats_clamps [of exBus exStore 45 1] ex_valid a ex_release_45
  show ?thesis by simp
qed

section \<open>The refund policy\<close>

text \<open>
  Claim C5, as amended. As functions of \<open>now\<close>, \<open>travelDate\<close>, \<open>totalAmount\<close> and
  \<open>status\<close>: \<open>canCancel\<close> holds exactly when the booking is confirmed and more than two
  hours (7200000 ms) remain, so never for a pending booking; without \<open>canCancel\<close> the
  refund is 0. With it, and more than 24 hours (86400000 ms) left, the refund is the floor
  of the double-precision product of \<open>totalAmount\<close> and \<open>0.9\<close>, the double nearest to
  nine tenths; for a whole amount below \<open>2 ^ 48\<close> that is \<open>\<lfloor>totalAmount * 9 / 10\<rfloor>\<close>. With
  24 hours or less left the refund is the floor of the double-precision product of
  \<open>totalAmount\<close> and \<open>0.5\<close>, which for every amount that is a double and not negative is
  \<open>\<lfloor>totalAmount / 2\<rfloor>\<close>.
\<close>

theorem refund_policy:
  "(canCancel now bk \<longleftrightarrow> status bk = Confirmed \<and> travelDate bk - now > 7200000)
   \<and> (status bk = Pending \<longrightarrow> \<not> canCancel now bk)
   \<and> (\<not> canCancel now bk \<longrightarrow> eligibleRefundAmount now bk = Finite 0)
   \<and> (canCancel now bk \<and> travelDate bk - now > 86400000 \<longrightarrow>
        eligibleRefundAmount now bk = floorN (timesDouble (totalAmount bk) double09)
        \<and> (\<forall>n. 0 \<le> n \<and> n < 2 ^ 48 \<and> totalAmount bk = Finite (of_int n) \<longrightarrow>
               eligibleRefundAmount now bk = Finite (of_int ((9 * n) div 10))))
   \<and> (canCancel now bk \<and> travelDate bk - now \<le> 86400000 \<longrightarrow>
        eligibleRefundAmount now bk = floorN (timesDouble (totalAmount bk) (1 / 2))
        \<and> (\<forall>t. 0 \<le> t \<and> roundDouble t = Finite t \<and> totalAmount bk = Finite t \<longrightarrow>
               eligibleRefundAmount now bk = Finite (of_int \<lfloor>t * (1 / 2)\<rfloor>)))
   \<and> roundDouble (9 / 10) = Finite double09"
proof -
  have 1: "canCancel now bk \<longleftrightarrow> status bk = Confirmed \<and> travelDate bk - now > 7200000"
    by (simp add: canCancel_def hours_gt_2)
  have 2: "status bk = Pending \<longrightarrow> \<not> canCancel now bk"
    by (simp add: canCancel_def)
  have 3: "\<not> canCancel now bk \<longrightarrow> eligibleRefundAmount now bk = Finite 0"
    by (simp add: eligibleRefundAmount_def)
  have 4: "eligibleRefundAmount now bk = floorN (timesDouble (totalAmount bk) double09)
        \<and> (\<forall>n. 0 \<le> n \<and> n < 2 ^ 48 \<and> totalAmount bk = Finite (of_int n) \<longrightarrow>
               eligibleRefundAmount now bk = Finite (of_int ((9 * n) div 10)))"
    if h: "canCancel now bk \<and> travelDate bk - now > 86400000"
  proof -
    from h have e: "eligibleRefundAmount now bk = floorN (timesDouble (totalAmount bk) double09)"
      by (simp add: eligibleRefundAmount_def hours_gt_24)
    have "eligibleRefundAmount now bk = Finite (of_int ((9 * n) div 10))"
      if "0 \<le> n \<and> n < 2 ^ 48 \<and> totalAmount bk = Finite (of_int n)" for n
      using that refund90_whole [of n] by (simp add: e timesDouble_def)
    with e show ?thesis by blast
  qed
  have 5: "eligibleRefundAmount now bk = floorN (timesDouble (totalAmount bk) (1 / 2))
        \<and> (\<forall>t. 0 \<le> t \<and> roundDouble t = Finite t \<and> totalAmount bk = Finite t \<longrightarrow>
               eligibleRefundAmount now bk = Finite (of_int \<lfloor>t * (1 / 2)\<rfloor>))"
    if h: "canCancel now bk \<and> travelDate bk - now \<le> 86400000"
  proof -
    from h have "hoursUntilTravel now bk > 2" by (simp add: canCancel_def split: if_splits)
    with h have e: "eligibleRefundAmount now bk = floorN (timesDouble (totalAmount bk) (1 / 2))"
      by (simp add: eligibleRefundAmount_def hours_gt_24)
    have "eligibleRefundAmount now bk = Finite (of_int \<lfloor>t * (1 / 2)\<rfloor>)"
      if "0 \<le> t \<and> roundDouble t = Finite t \<and> totalAmount bk = Finite t" for t
      using that half_double [of t] by (simp add: e timesDouble_def)
    with e show ?thesis by blast
  qed
  have 6: "roundDouble (9 / 10) = Finite double09"
    by code_simp
  from 1 2 3 4 5 6 show ?thesis by blast
qed

lemma ex_hundred: "roundDouble 100 = Finite 100"
  by code_simp

theorem refund_policy_witness:
  "canCancel exNow exBooking \<and> travelDate exBooking - exNow > 86400000
   \<and> eligibleRefundAmount exNow exBooking = Finite 90
   \<and> canCancel (exNow + 36000000) exBooking
   \<and> travelDate exBooking - (exNow + 36000000) \<le> 86400000
   \<and> eligibleRefundAmount (exNow + 36000000) exBooking = Finite 50
   \<and> \<not> canCancel (exNow + 104400000) exBooking
   \<and> eligibleRefundAmount (exNow + 104400000) exBooking = Finite 0
   \<and> status (exBooking\<lparr>status := Pending\<rparr>) = Pending
   \<and> \<not> canCancel exNow (exBooking\<lparr>status := Pending\<rparr>)"
proof -
  note a = refund_policy [of exNow exBooking]
  note b = refund_policy [of "exNow + 36000000" exBooking]
  note c = refund_policy [of "exNow + 104400000" exBooking]
  note d = refund_policy [of exNow "exBooking\<lparr>status := Pending\<rparr>"]
  have f: "status exBooking = Confirmed \<and> travelDate exBooking = exNow + 108000000
           \<and> totalAmount exBooking = Finite (of_int 100)"
    by (simp add: exBooking_def)
  from a f have a1: "canCancel exNow exBooking \<and> travelDate exBooking - exNow > 86400000"
    by simp
  with a have "\<forall>n. 0 \<le> n \<and> n < 2 ^ 48 \<and> totalAmount exBooking = Finite (of_int n) \<longrightarrow>
               eligibleRefundAmount exNow exBooking = Finite (of_int ((9 * n) div 10))"
    by blast
  from this [rule_format, of 100] f
  have a2: "eligibleRefundAmount exNow exBooking = Finite 90" by simp
  from b f have b1: "canCancel (exNow + 36000000) exBooking
      \<and> travelDate exBooking - (exNow + 36000000) \<le> 86400000"
    by simp
  with b have "\<forall>t. 0 \<le> t \<and> roundDouble t = Finite t \<and> totalAmount exBooking = Finite t \<longrightarrow>
               eligibleRefundAmount (exNow + 36000000) exBooking = Finite (of_int \<lfloor>t * (1 / 2)\<rfloor>)"
    by blast
  from this [rule_format, of 100] f ex_hundred
  have b2: "eligibleRefundAmount (exNow + 36000000) exBooking = Finite 50" by simp
  from c f have c1: "\<not> canCancel (exNow + 104400000) exBooking" by simp
  with c have c2: "eligibleRefundAmount (exNow + 104400000) exBooking = Finite 0" by blast
  from d have d1: "\<not> canCancel exNow (exBooking\<lparr>status := Pending\<rparr>)" by simp
  from a1 a2 b1 b2 c1 c2 d1 show ?thesis by simp
qed

text \<open>
  Claim C5 as first stated gives \<open>\<lfloor>totalAmount * 0.9\<rfloor>\<close>. The code rounds the product to
  a double before it takes the floor, and the two differ: the amount 3.333333333333333
  is a double that the schema accepts, nine tenths of it are below 3, whether \<open>0.9\<close> is
  read as the fraction or as the double, and the product rounds to 3. Thirty hours
  ahead the refund is 3, not 2.
\<close>

theorem refund_policy_counterexample:
  "roundDouble exThirds = Finite exThirds \<and> nonNegative (Finite exThirds)
   \<and> canCancel exNow (exBooking\<lparr>totalAmount := Finite exThirds\<rparr>)
   \<and> travelDate (exBooking\<lparr>totalAmount := Finite exThirds\<rparr>) - exNow > 86400000
   \<and> eligibleRefundAmount exNow (exBooking\<lparr>totalAmount := Finite exThirds\<rparr>) = Finite 3
   \<and> \<lfloor>exThirds * (9 / 10)\<rfloor> = 2 \<and> \<lfloor>exThirds * double09\<rfloor> = 2"
proof -
  have 1: "roundDouble exThirds = Finite exThirds" by code_simp
  have 2: "nonNegative (Finite exThirds)" by (simp add: nonNegative_def exThirds_def)
  have 3: "canCancel exNow (exBooking\<lparr>totalAmount := Finite exThirds\<rparr>)"
    by (simp add: canCancel_def hours_gt_2 exBooking_def)
  have 4: "travelDate (exBooking\<lparr>totalAmount := Finite exThirds\<rparr>) - exNow > 86400000"
    by (simp add: exBooking_def)
  have "floorN (roundDouble (exThirds * double09)) = Finite 3" by code_simp
  with 3 4 have 5: "eligibleRefundAmount exNow (exBooking\<lparr>totalAmount := Finite exThirds\<rparr>)
                      = Finite 3"
    by (simp add: eligibleRefundAmount_def hours_gt_24 timesDouble_def)
  have 6: "\<lfloor>exThirds * (9 / 10)\<rfloor> = 2 \<and> \<lfloor>exThirds * double09\<rfloor> = 2" by code_simp
  from 1 2 3 4 5 6 show ?thesis by blast
qed

section \<open>Confirming a booking\<close>






section \<open>Cancelling a booking\<close>

text \<open>
  What the method does on every booking it accepts: the refund is read after the status
  has become \<open>Cancelled\<close>, so it is 0 and the payment status is \<open>Paid\<close>, whatever the
  time left; the seats go back to the bus when the bus is found.
\<close>

lemma cancelBooking_model_result:
  assumes "cancelBooking_model now r bk s = (Inr bk', s')"
  shows "canCancel now bk
         \<and> bk' = bk\<lparr>status := Cancelled, cancellationReason := Some r,
                     cancellationDate := Some now, refundAmount := Finite 0,
                     paymentStatus := Paid\<rparr>
         \<and> (case findBus s (busId bk) of
               None \<Rightarrow> buses s' = buses s
             | Some b \<Rightarrow>
                 (\<exists>b' s1. releaseSeats b (seatCount bk) s = (Inr b', s1)
                     \<and> buses s' = buses s1))"
proof -
  from assms have cc: "canCancel now bk"
    by (cases "canCancel now bk") (simp_all add: cancel_model_fail)
  let ?bk = "bk\<lparr>status := Cancelled, cancellationReason := Some r,
                cancellationDate := Some now, refundAmount := Finite 0, paymentStatus := Paid\<rparr>"
  show ?thesis
  proof (cases "findBus s (busId bk)")
    case None
    with assms cc have e: "saveBooking now ?bk s = (Inr bk', s')"
      by (simp add: cancel_model_eq)
    from saveBooking_InrD [OF e] cc None show ?thesis by simp
  next
    case (Some b)
    obtain r1 s1 where rel: "releaseSeats b (seatCount bk) s = (r1, s1)"
      by (cases "releaseSeats b (seatCount bk) s")
    show ?thesis
    proof (cases r1)
      case (Inl e)
      with assms cc Some rel show ?thesis by (simp add: cancel_model_eq)
    next
      case (Inr b')
      with assms cc Some rel have e: "saveBooking now ?bk s1 = (Inr bk', s')"
        by (simp add: cancel_model_eq)
      from saveBooking_InrD [OF e] cc Some rel Inr show ?thesis by simp
    qed
  qed
qed

lemma cancelBooking_terminal:
  assumes "findBooking s i = Some bk" and "status bk = Cancelled \<or> status bk = Completed"
  shows "\<exists>e. cancelBooking now usr i reason s = (Inl e, s)"
  using assms by (auto simp: cancelBooking_def)

lemma cancelBooking_without_bus:
  assumes "findBooking s i = Some bk"
    and "user_role usr = AdminRole \<or> userId bk = user_id usr"
    and "canCancel now bk" and "findBus s (busId bk) = None"
    and "bookingSchemaValid now bk"
  shows "\<exists>bk' s'. cancelBooking now usr i reason s = (Inr bk', s')
           \<and> status bk' = Cancelled \<and> refundAmount bk' = Finite 0 \<and> paymentStatus bk' = Paid
           \<and> buses s' = buses s"
proof -
  from assms(3) have st: "status bk = Confirmed"
    by (simp add: canCancel_def split: if_splits)
  let ?r = "if reason = [] then ''User requested cancellation'' else reason"
  let ?bk = "bk\<lparr>status := Cancelled, cancellationReason := Some ?r,
                cancellationDate := Some now, refundAmount := Finite 0, paymentStatus := Paid\<rparr>"
  from assms(5) have v: "bookingSchemaValid now ?bk"
    by (simp add: bookingSchemaValid_def nonNegative_def)
  from assms(1) have f: "findBooking s (booking_id ?bk) \<noteq> None"
    by (auto dest: findBooking_SomeD)
  have "cancelBooking_model now ?r bk s = saveBooking now ?bk s"
    using assms(4) by (simp add: cancel_model_eq [OF assms(3)])
  with saveBooking_ok [OF v f] assms(1,2) st
  have "cancelBooking now usr i reason s
          = (Inr ?bk, s\<lparr>bookings := replaceBooking ?bk (bookings s)\<rparr>)"
    by (auto simp: cancelBooking_def)
  moreover have "status ?bk = Cancelled \<and> refundAmount ?bk = Finite 0 \<and> paymentStatus ?bk = Paid
                 \<and> buses (s\<lparr>bookings := replaceBooking ?bk (bookings s)\<rparr>) = buses s"
    by simp
  ultimately show ?thesis by blast
qed

text \<open>
  Claim C7, evaluated on a confirmed booking of total 100 whose travel date is thirty
  hours ahead. The refund policy grants 90, yet the cancelled booking carries
  \<open>refundAmount = 0\<close> and \<open>paymentStatus = Paid\<close>. Status, reason, date and the release
  of the two seats are as the claim says.
\<close>

theorem cancelBooking_refund_lost:
  "canCancel exNow exBooking \<and> eligibleRefundAmount exNow exBooking = Finite 90
   \<and> (\<exists>bk' s'. cancelBooking exNow exUser 1 ''changed plans'' exBookedStore = (Inr bk', s')
         \<and> status bk' = Cancelled \<and> cancellationReason bk' = Some ''changed plans''
         \<and> cancellationDate bk' = Some exNow
         \<and> refundAmount bk' = Finite 0 \<and> paymentStatus bk' = Paid
         \<and> findBus s' 1 = Some exBus)"
proof -
  let ?bk = "exBooking\<lparr>status := Cancelled, cancellationReason := Some ''changed plans'',
                     cancellationDate := Some exNow, refundAmount := Finite 0\<rparr>"
  let ?s = "\<lparr>buses = [exBus], bookings = [?bk]\<rparr>"
  have "cancelBooking exNow exUser 1 ''changed plans'' exBookedStore = (Inr ?bk, ?s)"
    by (rule ex_cancel)
  moreover have "status ?bk = Cancelled \<and> cancellationReason ?bk = Some ''changed plans''
         \<and> cancellationDate ?bk = Some exNow
         \<and> refundAmount ?bk = Finite 0 \<and> paymentStatus ?bk = Paid
         \<and> findBus ?s 1 = Some exBus"
    by (simp add: exBooking_def findBus_def exBus_def)
  ultimately have "\<exists>bk' s'.
       cancelBooking exNow exUser 1 ''changed plans'' exBookedStore = (Inr bk', s')
         \<and> status bk' = Cancelled \<and> cancellationReason bk' = Some ''changed plans''
         \<and> cancellationDate bk' = Some exNow
         \<and> refundAmount bk' = Finite 0 \<and> paymentStatus bk' = Paid
         \<and> findBus s' 1 = Some exBus"
    by blast
  with ex_refund_due show ?thesis by blast
qed

text \<open>
  Claim C10, evaluated on the same booking when its bus is gone: the cancellation
  completes, no bus is touched and nothing is reported, but here too the refund of 90
  that the policy grants is recorded as 0 with payment status \<open>Paid\<close>.
\<close>

theorem cancelBooking_missing_bus:
  "findBus exOrphanStore (busId exBooking) = None
   \<and> canCancel exNow exBooking \<and> eligibleRefundAmount exNow exBooking = Finite 90
   \<and> (\<exists>bk' s'. cancelBooking exNow exUser 1 [] exOrphanStore = (Inr bk', s')
         \<and> status bk' = Cancelled \<and> refundAmount bk' = Finite 0 \<and> paymentStatus bk' = Paid
         \<and> buses s' = buses exOrphanStore \<and> findBooking s' 1 = Some bk')"
proof -
  let ?bk = "exBooking\<lparr>status := Cancelled,
                     cancellationReason := Some ''User requested cancellation'',
                     cancellationDate := Some exNow, refundAmount := Finite 0\<rparr>"
  let ?s = "\<lparr>buses = [], bookings = [?bk]\<rparr>"
  have "cancelBooking exNow exUser 1 [] exOrphanStore = (Inr ?bk, ?s)"
    by (rule ex_cancel_orphan)
  moreover have "status ?bk = Cancelled \<and> refundAmount ?bk = Finite 0 \<and> paymentStatus ?bk = Paid
         \<and> buses ?s = buses exOrphanStore \<and> findBooking ?s 1 = Some ?bk"
    by (simp add: exBooking_def findBooking_def exOrphanStore_def)
  ultimately have "\<exists>bk' s'. cancelBooking exNow exUser 1 [] exOrphanStore = (Inr bk', s')
         \<and> status bk' = Cancelled \<and> refundAmount bk' = Finite 0 \<and> paymentStatus bk' = Paid
         \<and> buses s' = buses exOrphanStore \<and> findBooking s' 1 = Some bk'"
    by blast
  moreover have "findBus exOrphanStore (busId exBooking) = None"
    by (simp add: findBus_def exOrphanStore_def)
  ultimately show ?thesis using ex_refund_due by blast
qed

section \<open>Seat conflicts\<close>

text \<open>
  Claim C8, as amended. \<open>checkSeatAvailability\<close> rejects exactly the label lists of
  which some label is held, in the specification's sense, by a pending or confirmed
  booking for the same bus on the same calendar day. A request that names such a label
  is answered with an error and the store is unchanged, so no booking is created; the
  error is \<open>SeatsAlreadyBooked\<close> when the checks that the controller makes before it
  (validation, bus found and active, travel date, operating day, capacity) have passed.
  Cancelled and completed bookings do not count: dropping them from the store does not
  change the check.
\<close>

theorem seat_conflict:
  "(checkSeatAvailability s bid date labels \<longleftrightarrow> \<not> (\<exists>l\<in>set labels. heldBy s bid date l))
   \<and> ((\<exists>l\<in>set (requestedSeats req). heldBy s (req_busId req) (req_travelDate req) l) \<longrightarrow>
        (\<exists>e. createBooking now req s = (Inl e, s))
        \<and> (validationOk req \<and> findBus s (req_busId req) = Some b \<and> bus_status b = Active
            \<and> startOfDay now \<le> req_travelDate req
            \<and> dayName (req_travelDate req) \<in> set (operatingDays b)
            \<and> int (length (req_passengerDetails req)) \<le> availableSeats b \<longrightarrow>
            createBooking now req s = (Inl SeatsAlreadyBooked, s)))
   \<and> checkSeatAvailability
        (s\<lparr>bookings := filter (\<lambda>bk. status bk \<noteq> Cancelled \<and> status bk \<noteq> Completed)
                          (bookings s)\<rparr>) bid date labels
       = checkSeatAvailability s bid date labels"
proof -
  have 1: "checkSeatAvailability s bid date labels \<longleftrightarrow> \<not> (\<exists>l\<in>set labels. heldBy s bid date l)"
    by (simp add: checkSeatAvailability_heldBy list_ex_iff)
  have 2: "(\<exists>e. createBooking now req s = (Inl e, s))
        \<and> (validationOk req \<and> findBus s (req_busId req) = Some b \<and> bus_status b = Active
            \<and> startOfDay now \<le> req_travelDate req
            \<and> dayName (req_travelDate req) \<in> set (operatingDays b)
            \<and> int (length (req_passengerDetails req)) \<le> availableSeats b \<longrightarrow>
            createBooking now req s = (Inl SeatsAlreadyBooked, s))"
    if h: "\<exists>l\<in>set (requestedSeats req). heldBy s (req_busId req) (req_travelDate req) l"
  proof -
    from h have ne: "requestedSeats req \<noteq> []" by auto
    from h have no: "\<not> checkSeatAvailability s (req_busId req) (req_travelDate req)
                        (requestedSeats req)"
      by (simp add: checkSeatAvailability_heldBy list_ex_iff)
    have "\<exists>e. createBooking now req s = (Inl e, s)"
      by (rule createBooking_error)
    moreover have "createBooking now req s = (Inl SeatsAlreadyBooked, s)"
      if "validationOk req \<and> findBus s (req_busId req) = Some b \<and> bus_status b = Active
            \<and> startOfDay now \<le> req_travelDate req
            \<and> dayName (req_travelDate req) \<in> set (operatingDays b)
            \<and> int (length (req_passengerDetails req)) \<le> availableSeats b"
      using createBooking_conflict_kind [OF ne no, of b now] that by blast
    ultimately show ?thesis by blast
  qed
  have 3: "checkSeatAvailability
        (s\<lparr>bookings := filter (\<lambda>bk. status bk \<noteq> Cancelled \<and> status bk \<noteq> Completed)
                          (bookings s)\<rparr>) bid date labels
       = checkSeatAvailability s bid date labels"
    by (rule checkSeat_filter)
  from 1 2 3 show ?thesis by blast
qed

theorem seat_conflict_witness:
  "heldBy (exStore\<lparr>bookings := [exBooking\<lparr>status := Pending\<rparr>]\<rparr>) 1 (exNow + 108000000) ''A1''
   \<and> createBooking exNow exRequest (exStore\<lparr>bookings := [exBooking\<lparr>status := Pending\<rparr>]\<rparr>)
       = (Inl SeatsAlreadyBooked, exStore\<lparr>bookings := [exBooking\<lparr>status := Pending\<rparr>]\<rparr>)
   \<and> checkSeatAvailability (exStore\<lparr>bookings := [exBooking\<lparr>status := Cancelled\<rparr>]\<rparr>)
         1 (exNow + 108000000) [''A1'', ''A2'']"
proof -
  let ?s = "exStore\<lparr>bookings := [exBooking\<lparr>status := Pending\<rparr>]\<rparr>"
  let ?c = "exStore\<lparr>bookings := [exBooking\<lparr>status := Cancelled\<rparr>]\<rparr>"
  have h: "heldBy ?s 1 (exNow + 108000000) ''A1''"
    by (simp add: heldBy_def exBooking_def exPassengers_def)
  have r: "requestedSeats exRequest = [''A1'', ''A2''] \<and> req_busId exRequest = 1
           \<and> req_travelDate exRequest = exNow + 108000000 \<and> validationOk exRequest
           \<and> length (req_passengerDetails exRequest) = 2"
    by (simp add: requestedSeats_def exRequest_def exPassengers_def)
  have b: "findBus ?s 1 = Some exBus \<and> bus_status exBus = Active \<and> availableSeats exBus = 2
           \<and> startOfDay exNow \<le> exNow + 108000000
           \<and> dayName (exNow + 108000000) \<in> set (operatingDays exBus)"
    by (simp add: findBus_def exStore_def exBus_def startOfDay_def dayName_def msPerDay_def
        exNow_def)
  have n: "\<not> heldBy ?c 1 (exNow + 108000000) ''A1'' \<and> \<not> heldBy ?c 1 (exNow + 108000000) ''A2''"
    by (simp add: heldBy_def exBooking_def)
  from seat_conflict [of ?s 1 "exNow + 108000000" "[''A1'', ''A2'']" exRequest exNow exBus]
    seat_conflict [of ?c 1 "exNow + 108000000" "[''A1'', ''A2'']" exRequest exNow exBus]
    h r b n
  show ?thesis by simp
qed

text \<open>
  Claim C8 as first stated promises the seat-conflict error for every such request. The
  error is not always that one: on a bus that is sold out the capacity check comes
  first. Seat \<open>A1\<close> is held by the confirmed booking of the example store, whose bus has
  no seat left, and the request that names \<open>A1\<close> is answered with \<open>InsufficientSeats\<close>.
\<close>

theorem seat_conflict_counterexample:
  "''A1'' \<in> set (requestedSeats exRequest)
   \<and> heldBy exBookedStore (req_busId exRequest) (req_travelDate exRequest) ''A1''
   \<and> createBooking exNow exRequest exBookedStore = (Inl InsufficientSeats, exBookedStore)
   \<and> createBooking exNow exRequest exBookedStore \<noteq> (Inl SeatsAlreadyBooked, exBookedStore)"
proof -
  have 1: "''A1'' \<in> set (requestedSeats exRequest)"
    by (simp add: requestedSeats_def exRequest_def exPassengers_def)
  have 2: "heldBy exBookedStore (req_busId exRequest) (req_travelDate exRequest) ''A1''"
    by (simp add: heldBy_def exBookedStore_def exBooking_def exRequest_def exPassengers_def)
  have 3: "createBooking exNow exRequest exBookedStore = (Inl InsufficientSeats, exBookedStore)"
    by (simp add: createBooking_def findBus_def exBookedStore_def exBus_def exRequest_def
        exPassengers_def startOfDay_def msPerDay_def dayName_def exNow_def)
  from 1 2 3 show ?thesis by simp
qed

section \<open>Round trip\<close>

lemma bookSeats_exact:
  assumes "bookSeats b n s = (Inr b1, s1)" and "availableSeats b \<le> capacity b"
  shows "b1 = b\<lparr>availableSeats := availableSeats b - int n\<rparr> \<and> busSchemaValid b
         \<and> findBus s1 (bus_id b) = Some b1 \<and> bookings s1 = bookings s"
proof -
  let ?d = "b\<lparr>availableSeats := availableSeats b - int n\<rparr>"
  from bookSeats_InrD [OF assms(1)]
  have n: "int n \<le> availableSeats b" and sv: "saveBus ?d s = (Inr b1, s1)" by simp_all
  from saveBus_InrD [OF sv]
  have v: "busSchemaValid ?d" and f: "findBus s (bus_id b) \<noteq> None"
    and b1: "b1 = busPreSave False ?d" and s1: "s1 = s\<lparr>buses := replaceBus b1 (buses s)\<rparr>"
    by simp_all
  from assms(2) have "availableSeats ?d \<le> capacity ?d" by simp
  then have "busPreSave False ?d = ?d" by (rule busPreSave_noop)
  with b1 have e: "b1 = ?d" by simp
  from v n have "busSchemaValid b" by (simp add: busSchemaValid_def)
  moreover from f e have "findBus s1 (bus_id b) = Some b1"
    unfolding s1 by (auto simp: findBus_replaceBus split: option.splits)
  moreover have "bookings s1 = bookings s" unfolding s1 by simp
  ultimately show ?thesis using e by simp
qed

lemma ledger_round_trip:
  assumes "bookSeats b n s = (Inr b1, s1)" and "availableSeats b \<le> capacity b"
  shows "\<exists>s2. releaseSeats b1 n s1 = (Inr b, s2) \<and> findBus s2 (bus_id b) = Some b
           \<and> bookings s2 = bookings s1"
proof -
  from bookSeats_exact [OF assms]
  have b1: "b1 = b\<lparr>availableSeats := availableSeats b - int n\<rparr>" and v: "busSchemaValid b"
    and f: "findBus s1 (bus_id b) = Some b1"
    by simp_all
  from v b1 bookSeats_InrD [OF assms(1)] have v1: "busSchemaValid b1"
    by (simp add: busSchemaValid_def)
  from f b1 have f1: "findBus s1 (bus_id b1) \<noteq> None" by simp
  from release_ok [OF v1 f1, of n] obtain b2 s2 where r:
      "releaseSeats b1 n s1 = (Inr b2, s2)"
      "b2 = b1\<lparr>availableSeats := min (availableSeats b1 + int n) (capacity b1)\<rparr>"
      "findBus s2 (bus_id b1) = Some b2" "bookings s2 = bookings s1"
    by blast
  from r(2) b1 assms(2) have "b2 = b" by (simp add: min_def)
  with r b1 show ?thesis by simp
qed

text \<open>
  Claim C9, as amended. For a bus with \<open>availableSeats \<le> capacity\<close>: when \<open>bookSeats\<close>
  has reserved \<open>n\<close> seats, the bus is stored with \<open>n\<close> seats fewer, and releasing \<open>n\<close>
  seats next succeeds and stores the bus as it was before the reservation. The release
  may be that of a successful cancellation: when the store after the reservation holds a
  booking of \<open>n\<close> seats on that bus and \<open>cancelBooking\<close> succeeds on it, the bus is
  stored as it was before the reservation.
\<close>

theorem booking_round_trip:
  "(bookSeats b n s = (Inr b1, s1) \<and> availableSeats b \<le> capacity b \<longrightarrow>
      availableSeats b1 = availableSeats b - int n
      \<and> findBus s1 (bus_id b) = Some b1
      \<and> (\<exists>s2. releaseSeats b1 n s1 = (Inr b, s2) \<and> findBus s2 (bus_id b) = Some b))
   \<and> (bookSeats b n s = (Inr b1, s1) \<and> availableSeats b \<le> capacity b
        \<and> findBooking s1 i = Some bk \<and> busId bk = bus_id b \<and> seatCount bk = n
        \<and> cancelBooking now usr i reason s1 = (Inr bk', s2) \<longrightarrow>
        status bk' = Cancelled \<and> findBus s2 (bus_id b) = Some b)"
proof (intro conjI impI)
  assume h: "bookSeats b n s = (Inr b1, s1) \<and> availableSeats b \<le> capacity b"
  then have bs: "bookSeats b n s = (Inr b1, s1)" and le: "availableSeats b \<le> capacity b"
    by simp_all
  from bookSeats_exact [OF bs le] show "availableSeats b1 = availableSeats b - int n"
    and "findBus s1 (bus_id b) = Some b1"
    by simp_all
  from ledger_round_trip [OF bs le]
  show "\<exists>s2. releaseSeats b1 n s1 = (Inr b, s2) \<and> findBus s2 (bus_id b) = Some b"
    by blast
next
  assume h: "bookSeats b n s = (Inr b1, s1) \<and> availableSeats b \<le> capacity b
        \<and> findBooking s1 i = Some bk \<and> busId bk = bus_id b \<and> seatCount bk = n
        \<and> cancelBooking now usr i reason s1 = (Inr bk', s2)"
  then have bs: "bookSeats b n s = (Inr b1, s1)" and le: "availableSeats b \<le> capacity b"
    and fb: "findBooking s1 i = Some bk" and id: "busId bk = bus_id b" and sc: "seatCount bk = n"
    and cb: "cancelBooking now usr i reason s1 = (Inr bk', s2)"
    by simp_all
  from bookSeats_exact [OF bs le] have f: "findBus s1 (bus_id b) = Some b1" by simp
  from ledger_round_trip [OF bs le] obtain s3 where
    r: "releaseSeats b1 n s1 = (Inr b, s3)" and f3: "findBus s3 (bus_id b) = Some b"
    by blast
  from cancelBooking_InrD [OF cb] fb obtain r' where
    m: "cancelBooking_model now r' bk s1 = (Inr bk', s2)"
    by auto
  from cancelBooking_model_result [OF m] f id sc r
  have "status bk' = Cancelled" and "buses s2 = buses s3" by simp_all
  with f3 show "status bk' = Cancelled" and "findBus s2 (bus_id b) = Some b"
    by (simp_all add: findBus_def)
qed

theorem booking_round_trip_witness:
  "availableSeats exBus \<le> capacity exBus \<and> findBus exOpenStore 1 = Some exBus
   \<and> bookSeats exBus 2 exOpenStore = (Inr (exBus\<lparr>availableSeats := 0\<rparr>), exBookedStore)
   \<and> findBus exBookedStore 1 = Some (exBus\<lparr>availableSeats := 0\<rparr>)
   \<and> releaseSeats (exBus\<lparr>availableSeats := 0\<rparr>) 2 exBookedStore = (Inr exBus, exOpenStore)
   \<and> findBooking exBookedStore 1 = Some exBooking
   \<and> busId exBooking = bus_id exBus \<and> seatCount exBooking = 2
   \<and> (\<exists>bk' s2. cancelBooking exNow exUser 1 ''changed plans'' exBookedStore = (Inr bk', s2)
          \<and> status bk' = Cancelled \<and> findBus s2 1 = Some exBus)"
proof -
  have a: "availableSeats exBus \<le> capacity exBus \<and> bus_id exBus = 1
           \<and> findBus exOpenStore 1 = Some exBus
           \<and> findBooking exBookedStore 1 = Some exBooking
           \<and> busId exBooking = bus_id exBus \<and> seatCount exBooking = 2"
    by (simp add: findBus_def findBooking_def exOpenStore_def exBookedStore_def exBus_def
        exBooking_def)
  let ?bk = "exBooking\<lparr>status := Cancelled, cancellationReason := Some ''changed plans'',
                     cancellationDate := Some exNow, refundAmount := Finite 0\<rparr>"
  let ?s = "\<lparr>buses = [exBus], bookings = [?bk]\<rparr>"
  have c: "cancelBooking exNow exUser 1 ''changed plans'' exBookedStore = (Inr ?bk, ?s)"
    by (rule ex_cancel)
  from booking_round_trip [of exBus 2 exOpenStore "exBus\<lparr>availableSeats := 0\<rparr>" exBookedStore
      1 exBooking exNow exUser "''changed plans''" ?bk ?s] a ex_bookSeats ex_releaseSeats c
  show ?thesis by auto
qed

text \<open>
  Claim C9 as first stated promises the round trip for every bus. On the bus whose
  ledger stands above its capacity, 50 seats with capacity 40, reserving 2 seats stores
  40 and releasing them, directly or by cancelling a booking of 2 seats on that bus,
  stores 40 again, not 50.
\<close>

theorem booking_round_trip_counterexample:
  "availableSeats exOverBus = 50
   \<and> bookSeats exOverBus 2 (exOverStore\<lparr>bookings := [exBooking]\<rparr>)
       = (Inr (exOverBus\<lparr>availableSeats := 40\<rparr>),
          \<lparr>buses = [exOverBus\<lparr>availableSeats := 40\<rparr>], bookings = [exBooking]\<rparr>)
   \<and> releaseSeats (exOverBus\<lparr>availableSeats := 40\<rparr>) 2
        \<lparr>buses = [exOverBus\<lparr>availableSeats := 40\<rparr>], bookings = [exBooking]\<rparr>
       = (Inr (exOverBus\<lparr>availableSeats := 40\<rparr>),
          \<lparr>buses = [exOverBus\<lparr>availableSeats := 40\<rparr>], bookings = [exBooking]\<rparr>)
   \<and> cancelBooking exNow exUser 1 ''changed plans''
        \<lparr>buses = [exOverBus\<lparr>availableSeats := 40\<rparr>], bookings = [exBooking]\<rparr>
       = (Inr (exBooking\<lparr>status := Cancelled, cancellationReason := Some ''changed plans'',
                     cancellationDate := Some exNow, refundAmount := Finite 0\<rparr>),
          \<lparr>buses = [exOverBus\<lparr>availableSeats := 40\<rparr>],
           bookings = [exBooking\<lparr>status := Cancelled,
                         cancellationReason := Some ''changed plans'',
                         cancellationDate := Some exNow, refundAmount := Finite 0\<rparr>]\<rparr>)"
proof -
  have 1: "availableSeats exOverBus = 50" by (simp add: exOverBus_def)
  have 2: "bookSeats exOverBus 2 (exOverStore\<lparr>bookings := [exBooking]\<rparr>)
       = (Inr (exOverBus\<lparr>availableSeats := 40\<rparr>),
          \<lparr>buses = [exOverBus\<lparr>availableSeats := 40\<rparr>], bookings = [exBooking]\<rparr>)"
    by (simp add: bookSeats_def saveBus_def busSchemaValid_def busPreSave_def findBus_def
        replaceBus_def exOverBus_def exOverStore_def exBus_def Let_def)
  have 3: "releaseSeats (exOverBus\<lparr>availableSeats := 40\<rparr>) 2
        \<lparr>buses = [exOverBus\<lparr>availableSeats := 40\<rparr>], bookings = [exBooking]\<rparr>
       = (Inr (exOverBus\<lparr>availableSeats := 40\<rparr>),
          \<lparr>buses = [exOverBus\<lparr>availableSeats := 40\<rparr>], bookings = [exBooking]\<rparr>)"
    by (simp add: releaseSeats_def saveBus_def busSchemaValid_def busPreSave_def findBus_def
        replaceBus_def exOverBus_def exBus_def Let_def)
  have 4: "cancelBooking exNow exUser 1 ''changed plans''
        \<lparr>buses = [exOverBus\<lparr>availableSeats := 40\<rparr>], bookings = [exBooking]\<rparr>
       = (Inr (exBooking\<lparr>status := Cancelled, cancellationReason := Some ''changed plans'',
                     cancellationDate := Some exNow, refundAmount := Finite 0\<rparr>),
          \<lparr>buses = [exOverBus\<lparr>availableSeats := 40\<rparr>],
           bookings = [exBooking\<lparr>status := Cancelled,
                         cancellationReason := Some ''changed plans'',
                         cancellationDate := Some exNow, refundAmount := Finite 0\<rparr>]\<rparr>)"
    by (simp add: cancelBooking_def cancelBooking_model_def canCancel_def hoursUntilTravel_def
        eligibleRefundAmount_def findBooking_def findBus_def releaseSeats_def saveBus_def
        busSchemaValid_def busPreSave_def replaceBus_def saveBooking_def replaceBooking_def
        bookingSchemaValid_def nonNegative_def exceeds_def startOfDay_def msPerDay_def
        exBooking_def exOverBus_def exBus_def exUser_def exNow_def exPassengers_def Let_def)
  from 1 2 3 4 show ?thesis by blast
qed

end
